theory Spec2Isabelle
  imports Complex_Main "HOL-Library.AList" "HOL-Library.Word"
begin

section \<open>Common conventions\<close>

text \<open>
  The module \<^verbatim>\<open>sevenn/util.py\<close> is embedded function by function. In the postprocessor
  and the splitter, tensor entries are real numbers (the rounding of the tensor engine is
  not part of the model), a one-dimensional tensor is a list and a two-dimensional tensor
  is a list of rows. The accumulator sums in the data type of the tensor and in doubles,
  and its model says so. Every \<^verbatim>\<open>raise\<close>, failed \<^verbatim>\<open>assert\<close> and failed lookup of the
  source is a value \<open>Inl e\<close> of the result.
\<close>

datatype error =
    ValueError string
  | AssertionError string
  | KeyError
  | IndexError
  | TypeError
  | AttributeError
  | RuntimeError

section \<open>Running statistics accumulator (class AverageNumber)\<close>

text \<open>
  The arithmetic that the accumulator takes from outside this module: \<open>to_double\<close> rounds a
  real number to the double that Python's \<^verbatim>\<open>float\<close> arithmetic returns for it, and
  \<open>float_sum\<close> is \<^verbatim>\<open>values.sum().item()\<close> of a floating-point tensor, whose rounding
  and order of summation belong to the tensor engine.
\<close>

record arith =
  to_double :: "real \<Rightarrow> real"
  float_sum :: "real list \<Rightarrow> real"

text \<open>
  A batch, given by its entries in any order, since \<^verbatim>\<open>values.sum()\<close> and
  \<^verbatim>\<open>values.numel()\<close> do not depend on the shape: an integer tensor, which the engine
  sums in 64 bits with wrap-around, or a floating-point tensor.
\<close>

datatype tensor = Int64 "64 word list" | Floating "real list"

fun numel :: "tensor \<Rightarrow> nat" where
  "numel (Int64 ws) = length ws"
| "numel (Floating xs) = length xs"

text \<open>
  \<^verbatim>\<open>values.sum().item()\<close> as the operand of \<^verbatim>\<open>self._sum += ...\<close>: the sum of an integer
  tensor is a Python integer, which the addition to a \<^verbatim>\<open>float\<close> first rounds to a double.
\<close>

fun sum_item :: "arith \<Rightarrow> tensor \<Rightarrow> real" where
  "sum_item A (Int64 ws) = to_double A (real_of_int (sint (sum_list ws)))"
| "sum_item A (Floating xs) = float_sum A xs"

record AverageNumber =
  self_sum :: real
  self_count :: nat


text \<open>
  \<^verbatim>\<open>update(values)\<close>: \<^verbatim>\<open>self._sum\<close> is a \<^verbatim>\<open>float\<close> and its addition rounds;
  \<^verbatim>\<open>self._count\<close> is an unbounded integer.
\<close>

definition update :: "arith \<Rightarrow> AverageNumber \<Rightarrow> tensor \<Rightarrow> AverageNumber" where
  "update A self values =
     self\<lparr>self_sum := to_double A (self_sum self + sum_item A values),
          self_count := self_count self + numel values\<rparr>"



section \<open>Output postprocessor\<close>

text \<open>
  The members of the enumeration \<^verbatim>\<open>LossType\<close> of \<^verbatim>\<open>sevenn._const\<close>. An entry of the
  list \<^verbatim>\<open>loss_types\<close>, and a key of the dictionary \<^verbatim>\<open>results\<close>, is any Python object:
  \<open>Loss t\<close> is the member \<open>t\<close> and \<open>Str s\<close> is the string \<open>s\<close>, which is no member.
\<close>

datatype LossType = ENERGY | FORCE | STRESS

datatype key = Loss LossType | Str string

text \<open>
  The batched output: a dictionary read at constants of \<^verbatim>\<open>sevenn._keys\<close>. A field that
  is \<open>None\<close> is a key the dictionary lacks, and reading it raises \<^verbatim>\<open>KeyError\<close>. Atom counts
  are natural numbers, energies have shape \<open>[k]\<close>, forces \<open>[N, 3]\<close> and stresses \<open>[k, 6]\<close>.
\<close>

record 'l model_output =
  KEY_NUM_ATOMS :: "nat list option"
  KEY_PRED_TOTAL_ENERGY :: "real list option"
  KEY_ENERGY :: "real list option"
  KEY_PRED_FORCE :: "real list list option"
  KEY_FORCE :: "real list list option"
  KEY_PRED_STRESS :: "real list list option"
  KEY_STRESS :: "real list list option"
  KEY_USER_LABEL :: "'l list option"

text \<open>
  Modelled from the spec: the string constant \<^verbatim>\<open>KEY.NUM_ATOMS\<close> of \<^verbatim>\<open>sevenn._keys\<close>,
  which is not among the sources; the spec calls the field the per-structure atom counts.
\<close>

definition NUM_ATOMS :: string where
  "NUM_ATOMS = ''num_atoms''"

definition TO_KB :: real where
  "TO_KB = 1602.1766208"

text \<open>
  \<^verbatim>\<open>energy / num_atoms\<close> on one-dimensional tensors: elementwise when the lengths agree,
  broadcast when one side has a single entry, an error otherwise. A zero count gives
  \<^verbatim>\<open>inf\<close> or \<^verbatim>\<open>nan\<close> in the source and \<open>0\<close> here, so the theorems about this function
  assume positive counts.
\<close>

definition tensor_div :: "real list \<Rightarrow> nat list \<Rightarrow> error + real list" where
  "tensor_div xs ns =
     (if length xs = length ns then Inr (map2 (\<lambda>x n. x / real n) xs ns)
      else if length ns = 1 then Inr (map (\<lambda>x. x / real (hd ns)) xs)
      else if length xs = 1 then Inr (map (\<lambda>n. hd xs / real n) ns)
      else Inl RuntimeError)"

text \<open>The body of the loop of \<^verbatim>\<open>postprocess_output\<close> up to the store into \<^verbatim>\<open>results\<close>.\<close>

definition postprocess_type ::
  "'l model_output \<Rightarrow> key \<Rightarrow> error + (real list \<times> real list \<times> nat)" where
  "postprocess_type output loss_type =
     (if loss_type = Loss ENERGY then
        (case KEY_NUM_ATOMS output of None \<Rightarrow> Inl KeyError | Some num_atoms \<Rightarrow>
         (case KEY_PRED_TOTAL_ENERGY output of None \<Rightarrow> Inl KeyError | Some pe \<Rightarrow>
          (case tensor_div pe num_atoms of Inl e \<Rightarrow> Inl e | Inr pred \<Rightarrow>
           (case KEY_ENERGY output of None \<Rightarrow> Inl KeyError | Some re \<Rightarrow>
            (case tensor_div re num_atoms of Inl e \<Rightarrow> Inl e | Inr ref \<Rightarrow>
               Inr (pred, ref, 1))))))
      else if loss_type = Loss FORCE then
        (case KEY_PRED_FORCE output of None \<Rightarrow> Inl KeyError | Some pf \<Rightarrow>
         (case KEY_FORCE output of None \<Rightarrow> Inl KeyError | Some rf \<Rightarrow>
            Inr (concat pf, concat rf, 3)))
      else if loss_type = Loss STRESS then
        (case KEY_PRED_STRESS output of None \<Rightarrow> Inl KeyError | Some ps \<Rightarrow>
         (case KEY_STRESS output of None \<Rightarrow> Inl KeyError | Some rs \<Rightarrow>
            Inr (concat (map (map (\<lambda>x. x * TO_KB)) ps),
                 concat (map (map (\<lambda>x. x * TO_KB)) rs), 6)))
      else Inl (ValueError ''Unknown loss type''))"

type_synonym results = "(key \<times> (real list \<times> real list \<times> nat)) list"

text \<open>
  The loop over \<^verbatim>\<open>loss_types\<close>. \<^verbatim>\<open>results[loss_type] = ...\<close> on an insertion-ordered
  dictionary is \<open>AList.update\<close>: a present key keeps its place, a new key goes last.
\<close>

fun postprocess_loop :: "'l model_output \<Rightarrow> key list \<Rightarrow> results \<Rightarrow> error + results" where
  "postprocess_loop output [] results = Inr results"
| "postprocess_loop output (loss_type # loss_types) results =
     (case postprocess_type output loss_type of
        Inl e \<Rightarrow> Inl e
      | Inr t \<Rightarrow> postprocess_loop output loss_types (AList.update loss_type t results))"

definition postprocess_output :: "'l model_output \<Rightarrow> key list \<Rightarrow> error + results" where
  "postprocess_output output loss_types = postprocess_loop output loss_types []"

text \<open>A slice \<^verbatim>\<open>xs[i_from:i_to]\<close> with bounds that are not negative.\<close>

definition slice :: "'a list \<Rightarrow> nat \<Rightarrow> nat \<Rightarrow> 'a list" where
  "slice xs i_from i_to = take (i_to - i_from) (drop i_from xs)"

text \<open>
  \<^verbatim>\<open>t[idx].item()\<close> for a triple \<^verbatim>\<open>(pred, ref, vdim)\<close>: the two tensors give a number
  when they have a single entry, the integer \<^verbatim>\<open>vdim\<close> has no method \<^verbatim>\<open>item\<close>, and there
  is no fourth component.
\<close>

definition triple_item :: "real list \<times> real list \<times> nat \<Rightarrow> nat \<Rightarrow> error + real" where
  "triple_item t idx =
     (case t of (pred, ref, vdim) \<Rightarrow>
        if idx = 0 then (if length pred = 1 then Inr (hd pred) else Inl RuntimeError)
        else if idx = 1 then (if length ref = 1 then Inr (hd ref) else Inl RuntimeError)
        else if idx = 2 then Inl AttributeError
        else Inl IndexError)"

text \<open>
  The bound \<^verbatim>\<open>i_from + vdim * results[KEY.NUM_ATOMS][idx].item()\<close> of the force branch.
  The lookup is in \<^verbatim>\<open>results\<close>, the dictionary keyed by loss types; were the string key
  there, the product would be a float, which is no slice bound.
\<close>

definition force_bound :: "results \<Rightarrow> nat \<Rightarrow> nat \<Rightarrow> nat \<Rightarrow> error + nat" where
  "force_bound results i_from vdim idx =
     (case map_of results (Str NUM_ATOMS) of
        None \<Rightarrow> Inl KeyError
      | Some t \<Rightarrow> (case triple_item t idx of Inl e \<Rightarrow> Inl e | Inr x \<Rightarrow> Inl TypeError))"

type_synonym 'l labeled = "'l \<Rightarrow> (key \<times> (real list \<times> real list)) list option"

text \<open>The inner loop \<^verbatim>\<open>for idx, label in enumerate(batched_label)\<close>.\<close>

fun label_loop ::
  "results \<Rightarrow> key \<Rightarrow> real list \<Rightarrow> real list \<Rightarrow> nat \<Rightarrow> nat \<Rightarrow> nat \<Rightarrow> 'l list \<Rightarrow>
   'l labeled \<Rightarrow> error + 'l labeled" where
  "label_loop results loss_type pred ref vdim i_from idx [] labeled = Inr labeled"
| "label_loop results loss_type pred ref vdim i_from idx (label # rest) labeled =
     (case (if loss_type = Loss FORCE then force_bound results i_from vdim idx
            else Inr (i_from + vdim)) of
        Inl e \<Rightarrow> Inl e
      | Inr i_to \<Rightarrow>
          (case labeled label of
             None \<Rightarrow> Inl KeyError
           | Some d \<Rightarrow>
               label_loop results loss_type pred ref vdim i_to (Suc idx) rest
                 (labeled(label \<mapsto>
                    AList.update loss_type (slice pred i_from i_to, slice ref i_from i_to) d))))"

text \<open>The outer loop \<^verbatim>\<open>for loss_type, (pred, ref, vdim) in results.items()\<close>.\<close>

fun items_loop :: "results \<Rightarrow> results \<Rightarrow> 'l list \<Rightarrow> 'l labeled \<Rightarrow> error + 'l labeled" where
  "items_loop results [] batched_label labeled = Inr labeled"
| "items_loop results ((loss_type, (pred, ref, vdim)) # items) batched_label labeled =
     (case label_loop results loss_type pred ref vdim 0 0 batched_label labeled of
        Inl e \<Rightarrow> Inl e
      | Inr labeled' \<Rightarrow> items_loop results items batched_label labeled')"

definition postprocess_output_with_label ::
  "'l model_output \<Rightarrow> key list \<Rightarrow> error + 'l labeled" where
  "postprocess_output_with_label output loss_types =
     (case postprocess_output output loss_types of
        Inl e \<Rightarrow> Inl e
      | Inr results \<Rightarrow>
          (case KEY_USER_LABEL output of
             None \<Rightarrow> Inl KeyError
           | Some batched_label \<Rightarrow>
               items_loop results results batched_label
                 (\<lambda>k. if k \<in> set batched_label then Some [] else None)))"

section \<open>Batch-to-list splitter\<close>

text \<open>
  One record of the list: an \<^verbatim>\<open>AtomGraphData\<close> with the four inferred fields the function
  writes and everything else it carries. Per-atom energies are rows of any type \<open>'e\<close>.
\<close>

record ('e, 'a) atom_graph_data =
  data_ATOMIC_ENERGY :: "'e list option"
  data_PRED_TOTAL_ENERGY :: "real option"
  data_PRED_FORCE :: "real list list option"
  data_PRED_STRESS :: "real list list option"
  data_rest :: 'a

text \<open>
  The batch: the fields the function reads, and the list that the method
  \<^verbatim>\<open>to_data_list\<close> of the graph-batching library returns for it.
\<close>

record ('e, 'a) atom_graph_batch =
  batch_NUM_ATOMS :: "nat list option"
  batch_ATOMIC_ENERGY :: "'e list option"
  batch_PRED_TOTAL_ENERGY :: "real list option"
  batch_PRED_FORCE :: "real list list option"
  batch_PRED_STRESS :: "real list list option"
  to_data_list :: "('e, 'a) atom_graph_data list"

fun split_sizes :: "'a list \<Rightarrow> nat list \<Rightarrow> 'a list list" where
  "split_sizes t [] = []"
| "split_sizes t (n # ns) = take n t # split_sizes (drop n t) ns"

text \<open>\<^verbatim>\<open>torch.split(t, sizes)\<close> along the first axis: the sizes must add up to its length.\<close>

definition torch_split :: "'a list \<Rightarrow> nat list \<Rightarrow> error + 'a list list" where
  "torch_split t sizes =
     (if sum_list sizes = length t then Inr (split_sizes t sizes) else Inl RuntimeError)"

text \<open>Reading a tuple at an index that is not negative.\<close>

definition tuple_get :: "'a list \<Rightarrow> nat \<Rightarrow> error + 'a" where
  "tuple_get xs i = (if i < length xs then Inr (xs ! i) else Inl IndexError)"

text \<open>
  The loop \<^verbatim>\<open>for i, data in enumerate(data_list)\<close>; the stress list is \<open>None\<close> when
  \<^verbatim>\<open>is_stress\<close> is false. \<^verbatim>\<open>torch.unsqueeze(s, 0)\<close> of a row \<open>s\<close> is the one-row
  tensor \<open>[s]\<close>.
\<close>

fun assign_loop ::
  "'e list list \<Rightarrow> real list \<Rightarrow> real list list list \<Rightarrow> real list list option \<Rightarrow> nat \<Rightarrow>
   ('e, 'a) atom_graph_data list \<Rightarrow> error + ('e, 'a) atom_graph_data list" where
  "assign_loop atomic_energy_list inferred_total_energy_list inferred_force_list
     inferred_stress_list i [] = Inr []"
| "assign_loop atomic_energy_list inferred_total_energy_list inferred_force_list
     inferred_stress_list i (data # data_list) =
     (case tuple_get atomic_energy_list i of Inl e \<Rightarrow> Inl e | Inr ae \<Rightarrow>
      (case tuple_get inferred_total_energy_list i of Inl e \<Rightarrow> Inl e | Inr te \<Rightarrow>
       (case tuple_get inferred_force_list i of Inl e \<Rightarrow> Inl e | Inr f \<Rightarrow>
        (case (case inferred_stress_list of
                 None \<Rightarrow>
                   Inr (data\<lparr>data_ATOMIC_ENERGY := Some ae, data_PRED_TOTAL_ENERGY := Some te,
                          data_PRED_FORCE := Some f\<rparr>)
               | Some sl \<Rightarrow>
                   (case tuple_get sl i of Inl e \<Rightarrow> Inl e | Inr s \<Rightarrow>
                      Inr (data\<lparr>data_ATOMIC_ENERGY := Some ae, data_PRED_TOTAL_ENERGY := Some te,
                             data_PRED_FORCE := Some f, data_PRED_STRESS := Some [s]\<rparr>))) of
           Inl e \<Rightarrow> Inl e
         | Inr data' \<Rightarrow>
             (case assign_loop atomic_energy_list inferred_total_energy_list
                     inferred_force_list inferred_stress_list (Suc i) data_list of
                Inl e \<Rightarrow> Inl e
              | Inr rest \<Rightarrow> Inr (data' # rest))))))"

definition to_atom_graph_list ::
  "('e, 'a) atom_graph_batch \<Rightarrow> error + ('e, 'a) atom_graph_data list" where
  "to_atom_graph_list atom_graph_batch =
     (case batch_NUM_ATOMS atom_graph_batch of None \<Rightarrow> Inl KeyError | Some indices \<Rightarrow>
      (case batch_ATOMIC_ENERGY atom_graph_batch of None \<Rightarrow> Inl KeyError | Some ae \<Rightarrow>
       (case torch_split ae indices of Inl e \<Rightarrow> Inl e | Inr atomic_energy_list \<Rightarrow>
        (case batch_PRED_TOTAL_ENERGY atom_graph_batch of None \<Rightarrow> Inl KeyError
         | Some inferred_total_energy_list \<Rightarrow>
         (case batch_PRED_FORCE atom_graph_batch of None \<Rightarrow> Inl KeyError | Some pf \<Rightarrow>
          (case torch_split pf indices of Inl e \<Rightarrow> Inl e | Inr inferred_force_list \<Rightarrow>
             assign_loop atomic_energy_list inferred_total_energy_list inferred_force_list
               (batch_PRED_STRESS atom_graph_batch) 0 (to_data_list atom_graph_batch)))))))"

section \<open>Legacy parameter names\<close>

text \<open>The string operations of Python that \<^verbatim>\<open>_map_old_model\<close> uses.\<close>

text \<open>\<^verbatim>\<open>s.split(sep)\<close> for a separator of one character: never the empty list.\<close>

fun split :: "string \<Rightarrow> char \<Rightarrow> string list" where
  "split [] sep = [[]]"
| "split (c # cs) sep =
     (if c = sep then [] # split cs sep
      else (case split cs sep of [] \<Rightarrow> [[c]] | p # ps \<Rightarrow> (c # p) # ps))"

text \<open>\<^verbatim>\<open>sep.join(parts)\<close>.\<close>

fun join :: "string \<Rightarrow> string list \<Rightarrow> string" where
  "join sep [] = []"
| "join sep [p] = p"
| "join sep (p # q # ps) = p @ sep @ join sep (q # ps)"

fun startswith :: "string \<Rightarrow> string \<Rightarrow> bool" where
  "startswith s [] = True"
| "startswith [] (p # ps) = False"
| "startswith (c # cs) (p # ps) = (c = p \<and> startswith cs ps)"

text \<open>\<^verbatim>\<open>sub in s\<close> on strings.\<close>

fun contains :: "string \<Rightarrow> string \<Rightarrow> bool" where
  "contains [] sub = (sub = [])"
| "contains (c # cs) sub = (startswith (c # cs) sub \<or> contains cs sub)"

text \<open>
  \<^verbatim>\<open>s.replace(old, new)\<close>: every occurrence of \<open>old\<close>, from the left and without
  overlaps; an empty \<open>old\<close> matches before every character and at the end.
\<close>

function replace :: "string \<Rightarrow> string \<Rightarrow> string \<Rightarrow> string" where
  "replace s old new =
     (if old = [] then new @ concat (map (\<lambda>c. c # new) s)
      else if s = [] then []
      else if startswith s old then new @ replace (drop (length old) s) old new
      else hd s # replace (tl s) old new)"
  by pat_completeness auto
termination
  by (relation "measure (\<lambda>(s, old, new). length s)") auto

declare replace.simps [simp del]

text \<open>The formatted number \<^verbatim>\<open>f'{i}'\<close> of a natural number, in decimal.\<close>

definition digit :: "nat \<Rightarrow> char" where
  "digit d = ''0123456789'' ! d"

fun str :: "nat \<Rightarrow> string" where
  "str n = (if n < 10 then [digit n] else str (n div 10) @ [digit (n mod 10)])"

declare str.simps [simp del]

text \<open>
  The table \<^verbatim>\<open>_old_module_name_mapping\<close>: four fixed entries and, for each \<open>i\<close> in
  \<^verbatim>\<open>range(10)\<close>, four entries of the numbered blocks. All keys differ, so the
  assignments of the source append.
\<close>

definition numbered_entries :: "nat \<Rightarrow> (string \<times> string) list" where
  "numbered_entries i =
     [(str i @ '' self connection intro'', str i @ ''_self_connection_intro''),
      (str i @ '' convolution'', str i @ ''_convolution''),
      (str i @ '' self interaction 2'', str i @ ''_self_interaction_2''),
      (str i @ '' equivariant gate'', str i @ ''_equivariant_gate'')]"

definition old_module_name_mapping :: "(string \<times> string) list" where
  "old_module_name_mapping =
     [(''EdgeEmbedding'', ''edge_embedding''),
      (''reducing nn input to hidden'', ''reduce_input_to_hidden''),
      (''reducing nn hidden to energy'', ''reduce_hidden_to_energy''),
      (''rescale atomic energy'', ''rescale_atomic_energy'')]
     @ concat (map numbered_entries [0..<10])"

text \<open>The key under which the loop body of \<^verbatim>\<open>_map_old_model\<close> stores the value of \<open>k\<close>.\<close>

definition new_key :: "string \<Rightarrow> string" where
  "new_key k =
     (let key_name = hd (split k CHR ''.'');
          follower = join ''.'' (tl (split k CHR ''.''));
          follower' = (if contains follower ''denumerator''
                       then replace follower ''denumerator'' ''denominator'' else follower)
      in case map_of old_module_name_mapping key_name of
           Some new_name \<Rightarrow> new_name @ ''.'' @ follower'
         | None \<Rightarrow> k)"

text \<open>
  A state dictionary is an insertion-ordered dictionary from parameter names to tensors of
  any type \<open>'v\<close>: an association list with distinct keys.
\<close>

fun map_old_loop :: "(string \<times> 'v) list \<Rightarrow> (string \<times> 'v) list \<Rightarrow> (string \<times> 'v) list" where
  "map_old_loop [] new_model_state_dict = new_model_state_dict"
| "map_old_loop ((k, v) # items) new_model_state_dict =
     map_old_loop items (AList.update (new_key k) v new_model_state_dict)"

definition map_old_model :: "(string \<times> 'v) list \<Rightarrow> (string \<times> 'v) list" where
  "map_old_model old_model_state_dict = map_old_loop old_model_state_dict []"

section \<open>Checkpoint model loader\<close>

text \<open>
  A value of the configuration: a scalar, a list, a nested dictionary or a tensor bound to
  a device. A dictionary is an association list with distinct keys, in insertion order.
\<close>

datatype device = CPU | CUDA

datatype cval =
    VNone
  | VBool bool
  | VInt int
  | VFloat real
  | VStr string
  | VList "cval list"
  | VDict "(string \<times> cval) list"
  | VTensor device "real list"

type_synonym config = "(string \<times> cval) list"

text \<open>
  Modelled from the spec: the string constants \<^verbatim>\<open>KEY.OPTIMIZE_BY_REDUCE\<close>,
  \<^verbatim>\<open>KEY.CUTOFF_FUNCTION\<close>, \<^verbatim>\<open>KEY.CUTOFF_FUNCTION_NAME\<close> and
  \<^verbatim>\<open>KEY.SELF_CONNECTION_TYPE\<close> of \<^verbatim>\<open>sevenn._keys\<close>, which is not among the sources. The
  spec names the optimize-by-reduce flag, \<^verbatim>\<open>cutoff_function\<close> and
  \<^verbatim>\<open>self_connection_type\<close>; only that the four differ matters below.
\<close>

definition OPTIMIZE_BY_REDUCE :: string where
  "OPTIMIZE_BY_REDUCE = ''optimize_by_reduce''"

definition CUTOFF_FUNCTION :: string where
  "CUTOFF_FUNCTION = ''cutoff_function''"

definition CUTOFF_FUNCTION_NAME :: string where
  "CUTOFF_FUNCTION_NAME = ''cutoff_function_name''"

definition SELF_CONNECTION_TYPE :: string where
  "SELF_CONNECTION_TYPE = ''self_connection_type''"

text \<open>\<^verbatim>\<open>d[k]\<close> on a dictionary.\<close>

definition getitem :: "('k \<times> 'v) list \<Rightarrow> 'k \<Rightarrow> error + 'v" where
  "getitem d k = (case map_of d k of None \<Rightarrow> Inl KeyError | Some v \<Rightarrow> Inr v)"

text \<open>\<^verbatim>\<open>v[k]\<close> with a string \<open>k\<close> on a value of the configuration.\<close>

definition subscript :: "cval \<Rightarrow> string \<Rightarrow> error + cval" where
  "subscript v k =
     (case v of VDict d \<Rightarrow> getitem d k | VTensor dev xs \<Rightarrow> Inl IndexError | _ \<Rightarrow> Inl TypeError)"

text \<open>The truth value that \<^verbatim>\<open>not v\<close> negates.\<close>

definition truthy :: "cval \<Rightarrow> error + bool" where
  "truthy v =
     (case v of
        VNone \<Rightarrow> Inr False
      | VBool b \<Rightarrow> Inr b
      | VInt n \<Rightarrow> Inr (n \<noteq> 0)
      | VFloat x \<Rightarrow> Inr (x \<noteq> 0)
      | VStr s \<Rightarrow> Inr (s \<noteq> [])
      | VList xs \<Rightarrow> Inr (xs \<noteq> [])
      | VDict d \<Rightarrow> Inr (d \<noteq> [])
      | VTensor dev xs \<Rightarrow> (if length xs = 1 then Inr (hd xs \<noteq> 0) else Inl RuntimeError))"

text \<open>What the loader prints or warns, in order.\<close>

datatype event =
    Print_default string cval
  | Warn_cutoff
  | Warn_not_used "string list"

text \<open>
  A checkpoint: a dictionary read at \<^verbatim>\<open>'model_state_dict'\<close> and \<^verbatim>\<open>'config'\<close>. The argument
  of the loader is a string, a dictionary or anything else.
\<close>

record 'v checkpoint =
  ckpt_model_state_dict :: "(string \<times> 'v) list option"
  ckpt_config :: "config option"

datatype 'v checkpoint_arg = Path string | Mapping "'v checkpoint" | Neither

text \<open>
  Modelled from the spec: the model that \<^verbatim>\<open>build_E3_equivariant_model\<close> of
  \<^verbatim>\<open>sevenn.model_build\<close> returns, which is not among the sources. The spec asks of it a
  non-strict parameter-loading operation that returns the missing and the unused keys. A
  model is given by its own state dictionary; loading copies the values of the keys both
  dictionaries have.
\<close>

type_synonym 'v model = "(string \<times> 'v) list"

definition load_state_dict ::
  "'v model \<Rightarrow> (string \<times> 'v) list \<Rightarrow> 'v model \<times> string list \<times> string list" where
  "load_state_dict model state_dict =
     (map (\<lambda>(k, v). (k, case map_of state_dict k of None \<Rightarrow> v | Some w \<Rightarrow> w)) model,
      filter (\<lambda>k. k \<notin> set (map fst state_dict)) (map fst model),
      filter (\<lambda>k. k \<notin> set (map fst model)) (map fst state_dict))"

text \<open>
  What the loader takes from outside this module: the three tables of defaults of
  \<^verbatim>\<open>sevenn._const\<close>, the model builder and \<^verbatim>\<open>torch.load\<close>.
\<close>

record 'v env =
  DEFAULT_E3_EQUIVARIANT_MODEL_CONFIG :: config
  DEFAULT_DATA_CONFIG :: config
  DEFAULT_TRAINING_CONFIG :: config
  build_E3_equivariant_model :: "config \<Rightarrow> error + 'v model"
  torch_load :: "string \<Rightarrow> error + 'v checkpoint"

text \<open>The merged dictionary \<^verbatim>\<open>{**A, **B, **C}\<close>: later tables win.\<close>

definition defaults :: "'v env \<Rightarrow> config" where
  "defaults env =
     foldl (\<lambda>d (k, v). AList.update k v d) []
       (DEFAULT_E3_EQUIVARIANT_MODEL_CONFIG env @ DEFAULT_DATA_CONFIG env @
        DEFAULT_TRAINING_CONFIG env)"

text \<open>The loop \<^verbatim>\<open>for k, v in defaults.items()\<close>.\<close>

fun fill_defaults :: "config \<Rightarrow> config \<Rightarrow> event list \<Rightarrow> config \<times> event list" where
  "fill_defaults [] config evs = (config, evs)"
| "fill_defaults ((k, v) # items) config evs =
     (if k \<notin> set (map fst config)
      then fill_defaults items (AList.update k v config) (evs @ [Print_default k v])
      else fill_defaults items config evs)"

text \<open>The loop that moves the tensors among the values to the CPU.\<close>

definition cpu :: "cval \<Rightarrow> cval" where
  "cpu v = (case v of VTensor dev xs \<Rightarrow> VTensor CPU xs | _ \<Rightarrow> v)"

definition tensors_to_cpu :: "config \<Rightarrow> config" where
  "tensors_to_cpu config = map (\<lambda>(k, v). (k, cpu v)) config"

text \<open>The correction of the cutoff function, with the short-circuit of \<^verbatim>\<open>and\<close>.\<close>

definition fix_cutoff :: "config \<Rightarrow> error + (config \<times> event list)" where
  "fix_cutoff config =
     (case getitem config CUTOFF_FUNCTION of Inl e \<Rightarrow> Inl e | Inr cf \<Rightarrow>
      (case subscript cf CUTOFF_FUNCTION_NAME of Inl e \<Rightarrow> Inl e | Inr name \<Rightarrow>
         if name = VStr ''XPLOR'' then
           (case getitem config SELF_CONNECTION_TYPE of Inl e \<Rightarrow> Inl e | Inr sct \<Rightarrow>
              if sct = VStr ''MACE''
              then Inr (AList.update SELF_CONNECTION_TYPE (VStr ''linear'') config, [Warn_cutoff])
              else Inr (config, []))
         else Inr (config, [])))"

text \<open>
  The part of \<^verbatim>\<open>model_from_checkpoint\<close> that works on the configuration, in the order of
  the source: the check of the optimize-by-reduce flag, the defaults, the tensors, the
  correction of the cutoff function.
\<close>

definition resolve_config :: "'v env \<Rightarrow> config \<Rightarrow> event list \<times> (error + config)" where
  "resolve_config env config =
     (case getitem config OPTIMIZE_BY_REDUCE of Inl e \<Rightarrow> ([], Inl e) | Inr flag \<Rightarrow>
      (case truthy flag of Inl e \<Rightarrow> ([], Inl e) | Inr t \<Rightarrow>
         if \<not> t then ([], Inl (ValueError ''This potential file is no longer supported''))
         else
           (case fill_defaults (defaults env) config [] of (config1, evs) \<Rightarrow>
            (case fix_cutoff (tensors_to_cpu config1) of
               Inl e \<Rightarrow> (evs, Inl e)
             | Inr (config2, evs') \<Rightarrow> (evs @ evs', Inr config2)))))"

text \<open>The part that loads the parameters, with the retry on the remapped names.\<close>

definition load_parameters ::
  "'v model \<Rightarrow> (string \<times> 'v) list \<Rightarrow> event list \<times> (error + 'v model)" where
  "load_parameters model model_state_dict =
     (case load_state_dict model model_state_dict of (model1, missing, unused) \<Rightarrow>
        if length missing > 0 then
          (case load_state_dict model1 (map_old_model model_state_dict) of
             (model2, missing', not_used) \<Rightarrow>
               ((if length not_used > 0 then [Warn_not_used not_used] else []),
                (if length missing' = 0 then Inr model2
                 else Inl (AssertionError ''Missing keys''))))
        else ([], Inr model1))"

text \<open>The test of the argument's type, with the load of a checkpoint given by its path.\<close>

definition open_checkpoint :: "'v env \<Rightarrow> 'v checkpoint_arg \<Rightarrow> error + 'v checkpoint" where
  "open_checkpoint env checkpoint =
     (case checkpoint of
        Path p \<Rightarrow> torch_load env p
      | Mapping c \<Rightarrow> Inr c
      | Neither \<Rightarrow> Inl (ValueError ''checkpoint must be either str or dict''))"

definition model_from_checkpoint ::
  "'v env \<Rightarrow> 'v checkpoint_arg \<Rightarrow> event list \<times> (error + 'v model \<times> config)" where
  "model_from_checkpoint env checkpoint =
     (case open_checkpoint env checkpoint of
        Inl e \<Rightarrow> ([], Inl e)
      | Inr ckpt \<Rightarrow>
          (case ckpt_model_state_dict ckpt of None \<Rightarrow> ([], Inl KeyError)
           | Some model_state_dict \<Rightarrow>
          (case ckpt_config ckpt of None \<Rightarrow> ([], Inl KeyError) | Some config \<Rightarrow>
          (case resolve_config env config of
             (evs, Inl e) \<Rightarrow> (evs, Inl e)
           | (evs, Inr config') \<Rightarrow>
               (case build_E3_equivariant_model env config' of
                  Inl e \<Rightarrow> (evs, Inl e)
                | Inr model \<Rightarrow>
                    (case load_parameters model model_state_dict of
                       (evs', Inl e) \<Rightarrow> (evs @ evs', Inl e)
                     | (evs', Inr model') \<Rightarrow> (evs @ evs', Inr (model', config'))))))))"

section \<open>Irreps-output inference\<close>

text \<open>
  A string object of Python has an identity besides its characters. \<open>Interned s\<close> is the
  one object that every literal \<open>s\<close> of the program text denotes; \<open>Fresh n s\<close> is an
  object made at run time (read from a file, joined from parts) with the same characters.
  \<^verbatim>\<open>a == b\<close> compares the characters, \<^verbatim>\<open>a is b\<close> the objects.
\<close>

datatype pystr = Interned string | Fresh nat string

fun chars :: "pystr \<Rightarrow> string" where
  "chars (Interned s) = s"
| "chars (Fresh n s) = s"

definition py_eq :: "pystr \<Rightarrow> pystr \<Rightarrow> bool" where
  "py_eq a b = (chars a = chars b)"

definition py_is :: "pystr \<Rightarrow> pystr \<Rightarrow> bool" where
  "py_is a b = (a = b)"

text \<open>An argument of type \<^verbatim>\<open>Union[bool, int]\<close>, and its value as an integer.\<close>

datatype bool_or_int = PyBool bool | PyInt int

fun int_of :: "bool_or_int \<Rightarrow> int" where
  "int_of (PyBool b) = (if b then 1 else 0)"
| "int_of (PyInt n) = n"

text \<open>A block \<^verbatim>\<open>(mul, (l, p))\<close>: multiplicity, degree and parity.\<close>

type_synonym block = "int \<times> (nat \<times> int)"

text \<open>
  The constructor \<^verbatim>\<open>Irreps\<close> of the equivariant-algebra library on a list of blocks: it
  keeps the list, and refuses a negative multiplicity and a parity other than 1 and -1.
\<close>

definition Irreps :: "block list \<Rightarrow> error + block list" where
  "Irreps elems =
     (if list_all (\<lambda>(mul, (l, p)). 0 \<le> mul \<and> (p = 1 \<or> p = - 1)) elems then Inr elems
      else Inl (ValueError ''Unable to interpret as an irrep''))"

text \<open>The loop over the blocks of the simplified tensor product.\<close>

fun select_blocks :: "bool_or_int \<Rightarrow> pystr \<Rightarrow> bool_or_int \<Rightarrow> block list \<Rightarrow> block list" where
  "select_blocks drop_l parity_mode fix_multiplicity [] = []"
| "select_blocks drop_l parity_mode fix_multiplicity ((mul, (l, p)) # irreps_out) =
     (if drop_l \<noteq> PyBool False \<and> int l > int_of drop_l
      then select_blocks drop_l parity_mode fix_multiplicity irreps_out
      else if py_is parity_mode (Interned ''even'') \<and> p = - 1
      then select_blocks drop_l parity_mode fix_multiplicity irreps_out
      else if py_is parity_mode (Interned ''sph'') \<and> p \<noteq> (- 1) ^ l
      then select_blocks drop_l parity_mode fix_multiplicity irreps_out
      else (if int_of fix_multiplicity \<noteq> 0 then (int_of fix_multiplicity, (l, p))
            else (mul, (l, p)))
           # select_blocks drop_l parity_mode fix_multiplicity irreps_out)"

text \<open>
  \<^verbatim>\<open>infer_irreps_out\<close>. The first argument stands for
  \<^verbatim>\<open>FullTensorProduct(irreps_x, irreps_operand).irreps_out.simplify()\<close> of the
  equivariant-algebra library.
\<close>

definition infer_irreps_out ::
  "(block list \<Rightarrow> block list \<Rightarrow> block list) \<Rightarrow> block list \<Rightarrow> block list \<Rightarrow>
   bool_or_int \<Rightarrow> pystr \<Rightarrow> bool_or_int \<Rightarrow> error + block list" where
  "infer_irreps_out full_tensor_product irreps_x irreps_operand drop_l parity_mode
     fix_multiplicity =
     (if \<not> (py_eq parity_mode (Interned ''full'') \<or> py_eq parity_mode (Interned ''even'') \<or>
            py_eq parity_mode (Interned ''sph''))
      then Inl (AssertionError '''')
      else Irreps (select_blocks drop_l parity_mode fix_multiplicity
                     (full_tensor_product irreps_x irreps_operand)))"

section \<open>Properties of the accumulator\<close>








section \<open>Properties of the output postprocessor\<close>

lemma postprocess_loop_other:
  "postprocess_loop output lts acc = Inr results \<Longrightarrow> k \<notin> set lts \<Longrightarrow>
   map_of results k = map_of acc k"
proof (induction lts arbitrary: acc)
  case Nil
  then show ?case by simp
next
  case (Cons a lts)
  then show ?case
    by (auto split: sum.splits simp: update_conv')
qed

lemma postprocess_loop_lookup:
  "postprocess_loop output lts acc = Inr results \<Longrightarrow> k \<in> set lts \<Longrightarrow>
   postprocess_type output k = Inr t \<Longrightarrow> map_of results k = Some t"
proof (induction lts arbitrary: acc)
  case Nil
  then show ?case by simp
next
  case (Cons a lts)
  show ?case
  proof (cases "k \<in> set lts")
    case True
    with Cons show ?thesis by (auto split: sum.splits)
  next
    case False
    with Cons.prems have ak: "a = k" by simp
    from Cons.prems ak have "postprocess_loop output lts (AList.update k t acc) = Inr results"
      by simp
    from postprocess_loop_other [OF this False] show ?thesis
      by (simp add: update_conv')
  qed
qed

lemma postprocess_type_ENERGY:
  assumes "KEY_NUM_ATOMS output = Some num_atoms"
    and "KEY_PRED_TOTAL_ENERGY output = Some pe"
    and "KEY_ENERGY output = Some re"
    and "length pe = length num_atoms"
    and "length re = length num_atoms"
  shows "postprocess_type output (Loss ENERGY) =
           Inr (map2 (\<lambda>x n. x / real n) pe num_atoms,
                map2 (\<lambda>x n. x / real n) re num_atoms, 1)"
  using assms by (simp add: postprocess_type_def tensor_div_def)

text \<open>
  Claim C7. On a batch whose atom counts, predicted total energies and reference total
  energies have one entry per structure (counts positive), \<^verbatim>\<open>postprocess_output\<close> with the
  ENERGY loss type returns, in the order of the structures, the predicted and the reference
  total energy of each structure divided by its atom count, with dimensionality 1. This holds
  for the call with ENERGY alone, which returns, and for the ENERGY entry of every call
  that returns.
\<close>

theorem postprocess_output_ENERGY:
  assumes "KEY_NUM_ATOMS output = Some num_atoms"
    and "KEY_PRED_TOTAL_ENERGY output = Some pe"
    and "KEY_ENERGY output = Some re"
    and "length pe = length num_atoms"
    and "length re = length num_atoms"
    and "\<forall>n \<in> set num_atoms. 0 < n"
  shows "postprocess_output output [Loss ENERGY] =
           Inr [(Loss ENERGY, map2 (\<lambda>x n. x / real n) pe num_atoms,
                 map2 (\<lambda>x n. x / real n) re num_atoms, 1)]
         \<and> (\<forall>loss_types results.
               Loss ENERGY \<in> set loss_types \<and>
               postprocess_output output loss_types = Inr results \<longrightarrow>
               map_of results (Loss ENERGY) =
                 Some (map2 (\<lambda>x n. x / real n) pe num_atoms,
                       map2 (\<lambda>x n. x / real n) re num_atoms, 1))"
proof -
  note t = postprocess_type_ENERGY [OF assms(1-5)]
  have one: "postprocess_output output [Loss ENERGY] =
           Inr [(Loss ENERGY, map2 (\<lambda>x n. x / real n) pe num_atoms,
                 map2 (\<lambda>x n. x / real n) re num_atoms, 1)]"
    by (simp add: postprocess_output_def t)
  have many: "map_of results (Loss ENERGY) =
                 Some (map2 (\<lambda>x n. x / real n) pe num_atoms,
                       map2 (\<lambda>x n. x / real n) re num_atoms, 1)"
    if "Loss ENERGY \<in> set loss_types" "postprocess_output output loss_types = Inr results"
    for loss_types results
    using that postprocess_loop_lookup [OF _ _ t] by (simp add: postprocess_output_def)
  from one many show ?thesis by blast
qed

theorem postprocess_output_ENERGY_witness:
  "postprocess_output
     \<lparr>KEY_NUM_ATOMS = Some [3, 5], KEY_PRED_TOTAL_ENERGY = Some [6, 20],
      KEY_ENERGY = Some [9, 10], KEY_PRED_FORCE = None, KEY_FORCE = None,
      KEY_PRED_STRESS = None, KEY_STRESS = None, KEY_USER_LABEL = (None :: unit list option)\<rparr>
     [Loss ENERGY] = Inr [(Loss ENERGY, [2, 4], [3, 2], 1)]"
  using postprocess_output_ENERGY [of
     "\<lparr>KEY_NUM_ATOMS = Some [3, 5], KEY_PRED_TOTAL_ENERGY = Some [6, 20],
      KEY_ENERGY = Some [9, 10], KEY_PRED_FORCE = None, KEY_FORCE = None,
      KEY_PRED_STRESS = None, KEY_STRESS = None, KEY_USER_LABEL = (None :: unit list option)\<rparr>"
     "[3, 5]" "[6, 20]" "[9, 10]"]
  by simp

text \<open>
  Claim C1. The slices of \<^verbatim>\<open>postprocess_output_with_label\<close> do not reconstruct the flat
  arrays of \<^verbatim>\<open>postprocess_output\<close>. For the FORCE loss type the stride is read from
  \<^verbatim>\<open>results[KEY.NUM_ATOMS]\<close>, a key the dictionary of results never has, so the call
  raises \<^verbatim>\<open>KeyError\<close> on a batch of one structure where \<^verbatim>\<open>postprocess_output\<close> returns
  three force components. For ENERGY on two structures that share a label, the slice of the
  second structure overwrites the slice of the first.
\<close>

theorem postprocess_output_with_label_loses_slices:
  "postprocess_output
     \<lparr>KEY_NUM_ATOMS = Some [1], KEY_PRED_TOTAL_ENERGY = Some [2], KEY_ENERGY = Some [4],
      KEY_PRED_FORCE = Some [[1, 2, 3]], KEY_FORCE = Some [[4, 5, 6]],
      KEY_PRED_STRESS = None, KEY_STRESS = None, KEY_USER_LABEL = Some [''a'']\<rparr>
     [Loss FORCE] = Inr [(Loss FORCE, [1, 2, 3], [4, 5, 6], 3)]
   \<and> postprocess_output_with_label
     \<lparr>KEY_NUM_ATOMS = Some [1], KEY_PRED_TOTAL_ENERGY = Some [2], KEY_ENERGY = Some [4],
      KEY_PRED_FORCE = Some [[1, 2, 3]], KEY_FORCE = Some [[4, 5, 6]],
      KEY_PRED_STRESS = None, KEY_STRESS = None, KEY_USER_LABEL = Some [''a'']\<rparr>
     [Loss FORCE] = Inl KeyError
   \<and> postprocess_output
     \<lparr>KEY_NUM_ATOMS = Some [1, 2], KEY_PRED_TOTAL_ENERGY = Some [2, 6],
      KEY_ENERGY = Some [4, 8], KEY_PRED_FORCE = None, KEY_FORCE = None,
      KEY_PRED_STRESS = None, KEY_STRESS = None, KEY_USER_LABEL = Some [''a'', ''a'']\<rparr>
     [Loss ENERGY] = Inr [(Loss ENERGY, [2, 3], [4, 4], 1)]
   \<and> (\<exists>labeled. postprocess_output_with_label
     \<lparr>KEY_NUM_ATOMS = Some [1, 2], KEY_PRED_TOTAL_ENERGY = Some [2, 6],
      KEY_ENERGY = Some [4, 8], KEY_PRED_FORCE = None, KEY_FORCE = None,
      KEY_PRED_STRESS = None, KEY_STRESS = None, KEY_USER_LABEL = Some [''a'', ''a'']\<rparr>
     [Loss ENERGY] = Inr labeled \<and> labeled ''a'' = Some [(Loss ENERGY, [3], [4])])"
  by (simp add: postprocess_output_with_label_def postprocess_output_def postprocess_type_def
      tensor_div_def force_bound_def NUM_ATOMS_def slice_def)

section \<open>Properties of the batch-to-list splitter\<close>

lemma split_sizes_length: "length (split_sizes t ns) = length ns"
  by (induction ns arbitrary: t) simp_all

lemma split_sizes_nth:
  "i < length ns \<Longrightarrow>
   split_sizes t ns ! i = take (ns ! i) (drop (sum_list (take i ns)) t)"
proof (induction ns arbitrary: t i)
  case Nil
  then show ?case by simp
next
  case (Cons n ns)
  show ?case
  proof (cases i)
    case 0
    then show ?thesis by simp
  next
    case (Suc j)
    with Cons.prems have "j < length ns" by simp
    from Cons.IH [OF this, of "drop n t"] Suc show ?thesis
      by (simp add: add.commute)
  qed
qed

lemma assign_loop_fields:
  assumes "i + length dl \<le> length ael"
    and "i + length dl \<le> length tel"
    and "i + length dl \<le> length fl"
    and "\<And>s. sl = Some s \<Longrightarrow> i + length dl \<le> length s"
  shows "\<exists>recs. assign_loop ael tel fl sl i dl = Inr recs \<and> length recs = length dl \<and>
           (\<forall>j < length dl.
              data_ATOMIC_ENERGY (recs ! j) = Some (ael ! (i + j)) \<and>
              data_PRED_TOTAL_ENERGY (recs ! j) = Some (tel ! (i + j)) \<and>
              data_PRED_FORCE (recs ! j) = Some (fl ! (i + j)) \<and>
              data_PRED_STRESS (recs ! j) =
                (case sl of None \<Rightarrow> data_PRED_STRESS (dl ! j) | Some s \<Rightarrow> Some [s ! (i + j)]) \<and>
              data_rest (recs ! j) = data_rest (dl ! j))"
  using assms
proof (induction dl arbitrary: i)
  case Nil
  then show ?case by simp
next
  case (Cons d dl)
  have "Suc i + length dl \<le> length ael" "Suc i + length dl \<le> length tel"
    "Suc i + length dl \<le> length fl" "\<And>s. sl = Some s \<Longrightarrow> Suc i + length dl \<le> length s"
    using Cons.prems by auto
  from Cons.IH [OF this] obtain rest where
    rest: "assign_loop ael tel fl sl (Suc i) dl = Inr rest" "length rest = length dl"
    and fields: "\<And>j. j < length dl \<Longrightarrow>
              data_ATOMIC_ENERGY (rest ! j) = Some (ael ! (Suc i + j)) \<and>
              data_PRED_TOTAL_ENERGY (rest ! j) = Some (tel ! (Suc i + j)) \<and>
              data_PRED_FORCE (rest ! j) = Some (fl ! (Suc i + j)) \<and>
              data_PRED_STRESS (rest ! j) =
                (case sl of None \<Rightarrow> data_PRED_STRESS (dl ! j) | Some s \<Rightarrow> Some [s ! (Suc i + j)]) \<and>
              data_rest (rest ! j) = data_rest (dl ! j)"
    by blast
  have bounds: "i < length ael" "i < length tel" "i < length fl"
    using Cons.prems by auto
  show ?case
  proof (cases sl)
    case None
    let ?d = "d\<lparr>data_ATOMIC_ENERGY := Some (ael ! i), data_PRED_TOTAL_ENERGY := Some (tel ! i),
                 data_PRED_FORCE := Some (fl ! i)\<rparr>"
    have run: "assign_loop ael tel fl sl i (d # dl) = Inr (?d # rest)"
      using bounds rest None by (simp add: tuple_get_def)
    have "\<forall>j < length (d # dl).
              data_ATOMIC_ENERGY ((?d # rest) ! j) = Some (ael ! (i + j)) \<and>
              data_PRED_TOTAL_ENERGY ((?d # rest) ! j) = Some (tel ! (i + j)) \<and>
              data_PRED_FORCE ((?d # rest) ! j) = Some (fl ! (i + j)) \<and>
              data_PRED_STRESS ((?d # rest) ! j) =
                (case sl of None \<Rightarrow> data_PRED_STRESS ((d # dl) ! j) | Some s \<Rightarrow> Some [s ! (i + j)]) \<and>
              data_rest ((?d # rest) ! j) = data_rest ((d # dl) ! j)"
    proof (intro allI impI)
      fix j assume "j < length (d # dl)"
      then show "data_ATOMIC_ENERGY ((?d # rest) ! j) = Some (ael ! (i + j)) \<and>
              data_PRED_TOTAL_ENERGY ((?d # rest) ! j) = Some (tel ! (i + j)) \<and>
              data_PRED_FORCE ((?d # rest) ! j) = Some (fl ! (i + j)) \<and>
              data_PRED_STRESS ((?d # rest) ! j) =
                (case sl of None \<Rightarrow> data_PRED_STRESS ((d # dl) ! j) | Some s \<Rightarrow> Some [s ! (i + j)]) \<and>
              data_rest ((?d # rest) ! j) = data_rest ((d # dl) ! j)"
        using fields None by (cases j) simp_all
    qed
    with run rest show ?thesis by simp
  next
    case (Some s)
    let ?d = "d\<lparr>data_ATOMIC_ENERGY := Some (ael ! i), data_PRED_TOTAL_ENERGY := Some (tel ! i),
                 data_PRED_FORCE := Some (fl ! i), data_PRED_STRESS := Some [s ! i]\<rparr>"
    have "i < length s" using Cons.prems(4) [OF Some] by simp
    then have run: "assign_loop ael tel fl sl i (d # dl) = Inr (?d # rest)"
      using bounds rest Some by (simp add: tuple_get_def)
    have "\<forall>j < length (d # dl).
              data_ATOMIC_ENERGY ((?d # rest) ! j) = Some (ael ! (i + j)) \<and>
              data_PRED_TOTAL_ENERGY ((?d # rest) ! j) = Some (tel ! (i + j)) \<and>
              data_PRED_FORCE ((?d # rest) ! j) = Some (fl ! (i + j)) \<and>
              data_PRED_STRESS ((?d # rest) ! j) =
                (case sl of None \<Rightarrow> data_PRED_STRESS ((d # dl) ! j) | Some s \<Rightarrow> Some [s ! (i + j)]) \<and>
              data_rest ((?d # rest) ! j) = data_rest ((d # dl) ! j)"
    proof (intro allI impI)
      fix j assume "j < length (d # dl)"
      then show "data_ATOMIC_ENERGY ((?d # rest) ! j) = Some (ael ! (i + j)) \<and>
              data_PRED_TOTAL_ENERGY ((?d # rest) ! j) = Some (tel ! (i + j)) \<and>
              data_PRED_FORCE ((?d # rest) ! j) = Some (fl ! (i + j)) \<and>
              data_PRED_STRESS ((?d # rest) ! j) =
                (case sl of None \<Rightarrow> data_PRED_STRESS ((d # dl) ! j) | Some s \<Rightarrow> Some [s ! (i + j)]) \<and>
              data_rest ((?d # rest) ! j) = data_rest ((d # dl) ! j)"
        using fields Some by (cases j) simp_all
    qed
    with run rest show ?thesis by simp
  qed
qed

lemma sum_list_take_nth_le:
  "i < length ns \<Longrightarrow> sum_list (take i ns) + ns ! i \<le> sum_list (ns :: nat list)"
proof -
  assume i: "i < length ns"
  have "sum_list (take (Suc i) ns) + sum_list (drop (Suc i) ns) = sum_list ns"
    by (metis append_take_drop_id sum_list.append)
  moreover have "sum_list (take (Suc i) ns) = sum_list (take i ns) + ns ! i"
    using i by (simp add: take_Suc_conv_app_nth)
  ultimately show ?thesis by simp
qed

text \<open>
  Claim C9. On a batch of \<open>k\<close> structures with atom counts \<open>[a1..ak]\<close> whose inferred
  fields have the shapes the counts ask for, \<^verbatim>\<open>to_atom_graph_list\<close> returns \<open>k\<close> records
  in the order of the structures; the predicted force of record \<open>i\<close> is the block of \<open>ai\<close>
  rows of the batch's force tensor that starts after the atoms of the structures before
  it, so it has shape \<open>[ai, 3]\<close>; and when the batch has a predicted stress, the
  predicted stress of record \<open>i\<close> is row \<open>i\<close> under a leading dimension of size one.
\<close>

theorem to_atom_graph_list_splits:
  assumes "batch_NUM_ATOMS b = Some ns"
    and "batch_ATOMIC_ENERGY b = Some ae"
    and "length ae = sum_list ns"
    and "batch_PRED_TOTAL_ENERGY b = Some te"
    and "length te = length ns"
    and "batch_PRED_FORCE b = Some pf"
    and "length pf = sum_list ns"
    and "\<forall>row \<in> set pf. length row = 3"
    and "length (to_data_list b) = length ns"
    and "\<forall>s. batch_PRED_STRESS b = Some s \<longrightarrow> length s = length ns"
  shows "\<exists>recs. to_atom_graph_list b = Inr recs \<and> length recs = length ns \<and>
           (\<forall>i < length ns.
              data_rest (recs ! i) = data_rest (to_data_list b ! i) \<and>
              (\<exists>f. data_PRED_FORCE (recs ! i) = Some f \<and>
                   f = take (ns ! i) (drop (sum_list (take i ns)) pf) \<and>
                   length f = ns ! i \<and> (\<forall>row \<in> set f. length row = 3)) \<and>
              (\<forall>s. batch_PRED_STRESS b = Some s \<longrightarrow>
                   data_PRED_STRESS (recs ! i) = Some [s ! i]))"
proof -
  let ?ael = "split_sizes ae ns" and ?fl = "split_sizes pf ns"
  have run: "to_atom_graph_list b =
      assign_loop ?ael te ?fl (batch_PRED_STRESS b) 0 (to_data_list b)"
    using assms(1-7) by (simp add: to_atom_graph_list_def torch_split_def)
  have "\<exists>recs. assign_loop ?ael te ?fl (batch_PRED_STRESS b) 0 (to_data_list b) = Inr recs \<and>
          length recs = length (to_data_list b) \<and>
           (\<forall>j < length (to_data_list b).
              data_ATOMIC_ENERGY (recs ! j) = Some (?ael ! (0 + j)) \<and>
              data_PRED_TOTAL_ENERGY (recs ! j) = Some (te ! (0 + j)) \<and>
              data_PRED_FORCE (recs ! j) = Some (?fl ! (0 + j)) \<and>
              data_PRED_STRESS (recs ! j) =
                (case batch_PRED_STRESS b of None \<Rightarrow> data_PRED_STRESS (to_data_list b ! j)
                 | Some s \<Rightarrow> Some [s ! (0 + j)]) \<and>
              data_rest (recs ! j) = data_rest (to_data_list b ! j))"
    using assms(5,9,10) by (intro assign_loop_fields) (simp_all add: split_sizes_length)
  then obtain recs where
    recs: "to_atom_graph_list b = Inr recs" "length recs = length ns"
    and fields: "\<And>j. j < length ns \<Longrightarrow>
              data_PRED_FORCE (recs ! j) = Some (?fl ! j) \<and>
              data_PRED_STRESS (recs ! j) =
                (case batch_PRED_STRESS b of None \<Rightarrow> data_PRED_STRESS (to_data_list b ! j)
                 | Some s \<Rightarrow> Some [s ! j]) \<and>
              data_rest (recs ! j) = data_rest (to_data_list b ! j)"
    using run assms(9) by (auto cong: option.case_cong)
  have "data_rest (recs ! i) = data_rest (to_data_list b ! i) \<and>
        (\<exists>f. data_PRED_FORCE (recs ! i) = Some f \<and>
             f = take (ns ! i) (drop (sum_list (take i ns)) pf) \<and>
             length f = ns ! i \<and> (\<forall>row \<in> set f. length row = 3)) \<and>
        (\<forall>s. batch_PRED_STRESS b = Some s \<longrightarrow> data_PRED_STRESS (recs ! i) = Some [s ! i])"
    if i: "i < length ns" for i
  proof -
    let ?f = "take (ns ! i) (drop (sum_list (take i ns)) pf)"
    have f: "data_PRED_FORCE (recs ! i) = Some ?f"
      using fields [OF i] split_sizes_nth [OF i] by simp
    have len: "length ?f = ns ! i"
      using sum_list_take_nth_le [OF i] assms(7) by simp
    have rows: "\<forall>row \<in> set ?f. length row = 3"
      using assms(8) by (meson in_set_dropD in_set_takeD)
    from f len rows fields [OF i] show ?thesis by simp
  qed
  with recs show ?thesis by blast
qed

theorem to_atom_graph_list_splits_witness:
  "\<exists>recs. to_atom_graph_list
      \<lparr>batch_NUM_ATOMS = Some [3, 5],
       batch_ATOMIC_ENERGY = Some [1, 2, 3, 4, 5, 6, 7, 8 :: real],
       batch_PRED_TOTAL_ENERGY = Some [6, 30],
       batch_PRED_FORCE = Some [[1, 0, 0], [2, 0, 0], [3, 0, 0], [4, 0, 0], [5, 0, 0],
                                [6, 0, 0], [7, 0, 0], [8, 0, 0]],
       batch_PRED_STRESS = Some [[1, 1, 1, 0, 0, 0], [2, 2, 2, 0, 0, 0]],
       to_data_list =
         [\<lparr>data_ATOMIC_ENERGY = None, data_PRED_TOTAL_ENERGY = None, data_PRED_FORCE = None,
           data_PRED_STRESS = None, data_rest = ''first''\<rparr>,
          \<lparr>data_ATOMIC_ENERGY = None, data_PRED_TOTAL_ENERGY = None, data_PRED_FORCE = None,
           data_PRED_STRESS = None, data_rest = ''second''\<rparr>]\<rparr> = Inr recs \<and>
     length recs = 2 \<and>
     data_rest (recs ! 0) = ''first'' \<and> data_rest (recs ! 1) = ''second'' \<and>
     data_PRED_FORCE (recs ! 0) = Some [[1, 0, 0], [2, 0, 0], [3, 0, 0]] \<and>
     data_PRED_FORCE (recs ! 1) = Some [[4, 0, 0], [5, 0, 0], [6, 0, 0], [7, 0, 0], [8, 0, 0]] \<and>
     data_PRED_STRESS (recs ! 0) = Some [[1, 1, 1, 0, 0, 0]] \<and>
     data_PRED_STRESS (recs ! 1) = Some [[2, 2, 2, 0, 0, 0]]"
  (is "\<exists>recs. to_atom_graph_list ?b = Inr recs \<and> _")
proof -
  from to_atom_graph_list_splits [of ?b "[3, 5]" "[1, 2, 3, 4, 5, 6, 7, 8]" "[6, 30]"
      "[[1, 0, 0], [2, 0, 0], [3, 0, 0], [4, 0, 0], [5, 0, 0], [6, 0, 0], [7, 0, 0], [8, 0, 0]]"]
  obtain recs where r: "to_atom_graph_list ?b = Inr recs" "length recs = 2"
    and f: "\<And>i. i < 2 \<Longrightarrow>
              data_rest (recs ! i) = data_rest (to_data_list ?b ! i) \<and>
              (\<exists>f. data_PRED_FORCE (recs ! i) = Some f \<and>
                   f = take ([3, 5] ! i) (drop (sum_list (take i [3, 5]))
                     [[1, 0, 0], [2, 0, 0], [3, 0, 0], [4, 0, 0], [5, 0, 0],
                      [6, 0, 0], [7, 0, 0], [8, 0, 0 :: real]])) \<and>
              (\<forall>s. batch_PRED_STRESS ?b = Some s \<longrightarrow>
                   data_PRED_STRESS (recs ! i) = Some [s ! i])"
    by auto
  from f [of 0] f [of 1] r show ?thesis by simp
qed

section \<open>Properties of the legacy-name remapping\<close>

lemma range_10: "[0..<10] = [0, 1, 2, 3, 4, 5, 6, 7, 8, 9]"
  by (simp add: upt_rec)

lemma old_module_names:
  "map fst old_module_name_mapping =
    [''EdgeEmbedding'', ''reducing nn input to hidden'',
     ''reducing nn hidden to energy'', ''rescale atomic energy'',
     ''0 self connection intro'', ''0 convolution'', ''0 self interaction 2'',
     ''0 equivariant gate'', ''1 self connection intro'', ''1 convolution'',
     ''1 self interaction 2'', ''1 equivariant gate'',
     ''2 self connection intro'', ''2 convolution'', ''2 self interaction 2'',
     ''2 equivariant gate'', ''3 self connection intro'', ''3 convolution'',
     ''3 self interaction 2'', ''3 equivariant gate'',
     ''4 self connection intro'', ''4 convolution'', ''4 self interaction 2'',
     ''4 equivariant gate'', ''5 self connection intro'', ''5 convolution'',
     ''5 self interaction 2'', ''5 equivariant gate'',
     ''6 self connection intro'', ''6 convolution'', ''6 self interaction 2'',
     ''6 equivariant gate'', ''7 self connection intro'', ''7 convolution'',
     ''7 self interaction 2'', ''7 equivariant gate'',
     ''8 self connection intro'', ''8 convolution'', ''8 self interaction 2'',
     ''8 equivariant gate'', ''9 self connection intro'', ''9 convolution'',
     ''9 self interaction 2'', ''9 equivariant gate'']"
  by (simp add: old_module_name_mapping_def range_10 numbered_entries_def str.simps digit_def)

lemma old_module_names_distinct: "distinct (map fst old_module_name_mapping)"
  unfolding old_module_names by simp

lemma old_module_names_no_dot:
  "old \<in> set (map fst old_module_name_mapping) \<Longrightarrow> CHR ''.'' \<notin> set old"
  unfolding old_module_names by auto

lemma split_not_Nil: "split s sep \<noteq> []"
  by (induction s) (auto split: list.splits)

lemma split_prefix:
  "sep \<notin> set a \<Longrightarrow> split (a @ sep # f) sep = a # split f sep"
  by (induction a) (auto split: list.splits)

lemma join_split: "join [sep] (split s sep) = s"
proof (induction s)
  case Nil
  then show ?case by simp
next
  case (Cons c cs)
  obtain p ps where ps: "split cs sep = p # ps"
    using split_not_Nil [of cs sep] by (cases "split cs sep") auto
  show ?case
  proof (cases "c = sep")
    case True
    with Cons ps show ?thesis by simp
  next
    case False
    with Cons ps show ?thesis by (cases ps) auto
  qed
qed

lemma new_key_not_legacy:
  assumes "hd (split k CHR ''.'') \<notin> set (map fst old_module_name_mapping)"
  shows "new_key k = k"
proof -
  from assms have "map_of old_module_name_mapping (hd (split k CHR ''.'')) = None"
    by (simp add: map_of_eq_None_iff)
  then show ?thesis by (simp add: new_key_def Let_def)
qed

lemma new_key_legacy:
  assumes "(old, new) \<in> set old_module_name_mapping"
  shows "new_key (old @ ''.'' @ f) =
           new @ ''.'' @ (if contains f ''denumerator''
                          then replace f ''denumerator'' ''denominator'' else f)"
proof -
  from assms have "old \<in> set (map fst old_module_name_mapping)" by force
  then have "CHR ''.'' \<notin> set old" by (rule old_module_names_no_dot)
  then have sp: "split (old @ CHR ''.'' # f) CHR ''.'' = old # split f CHR ''.''"
    by (rule split_prefix)
  have look: "map_of old_module_name_mapping old = Some new"
    using assms old_module_names_distinct by simp
  show ?thesis
    using join_split [of "CHR ''.''" f] by (simp add: new_key_def Let_def sp look)
qed

lemma update_fresh: "k \<notin> set (map fst al) \<Longrightarrow> AList.update k v al = al @ [(k, v)]"
  by (induction al) auto

lemma map_old_loop_unchanged:
  "\<forall>k \<in> set (map fst items). new_key k = k \<Longrightarrow> distinct (map fst items) \<Longrightarrow>
   set (map fst items) \<inter> set (map fst acc) = {} \<Longrightarrow> map_old_loop items acc = acc @ items"
proof (induction items arbitrary: acc)
  case Nil
  then show ?case by simp
next
  case (Cons kv items)
  obtain k v where kv: "kv = (k, v)" by (cases kv)
  from Cons.prems kv have fresh: "k \<notin> set (map fst acc)" and same: "new_key k = k" by auto
  have "map_old_loop items (acc @ [(k, v)]) = (acc @ [(k, v)]) @ items"
    using Cons.prems kv by (intro Cons.IH) auto
  with fresh same kv show ?case by (simp add: update_fresh)
qed

text \<open>
  Claim C10. \<^verbatim>\<open>_map_old_model\<close> stores a key under its own name when the part before the
  first dot is no key of the table of legacy module names and the rest does not contain
  \<^verbatim>\<open>denumerator\<close>; so a state dictionary all of whose keys are of this kind is returned
  as it is, entry for entry and in the same order.
\<close>

theorem map_old_model_current_names:
  "(hd (split k CHR ''.'') \<notin> set (map fst old_module_name_mapping) \<and>
    \<not> contains (join ''.'' (tl (split k CHR ''.''))) ''denumerator'' \<longrightarrow> new_key k = k)
   \<and> (distinct (map fst sd) \<and>
       (\<forall>k \<in> set (map fst sd).
          hd (split k CHR ''.'') \<notin> set (map fst old_module_name_mapping) \<and>
          \<not> contains (join ''.'' (tl (split k CHR ''.''))) ''denumerator'') \<longrightarrow>
       map_old_model sd = sd)"
proof (intro conjI impI)
  assume "hd (split k CHR ''.'') \<notin> set (map fst old_module_name_mapping) \<and>
    \<not> contains (join ''.'' (tl (split k CHR ''.''))) ''denumerator''"
  then show "new_key k = k" by (simp add: new_key_not_legacy)
next
  assume a: "distinct (map fst sd) \<and>
       (\<forall>k \<in> set (map fst sd).
          hd (split k CHR ''.'') \<notin> set (map fst old_module_name_mapping) \<and>
          \<not> contains (join ''.'' (tl (split k CHR ''.''))) ''denumerator'')"
  then have "\<forall>k \<in> set (map fst sd). new_key k = k"
    using new_key_not_legacy by blast
  with a have "map_old_loop sd [] = [] @ sd"
    by (intro map_old_loop_unchanged) auto
  then show "map_old_model sd = sd" by (simp add: map_old_model_def)
qed

theorem map_old_model_current_names_witness:
  "new_key ''0_convolution.weight'' = ''0_convolution.weight'' \<and>
   map_old_model [(''0_convolution.weight'', 1 :: nat), (''edge_embedding.linear.bias'', 2)] =
     [(''0_convolution.weight'', 1), (''edge_embedding.linear.bias'', 2)]"
  using map_old_model_current_names [of "''0_convolution.weight''"
      "[(''0_convolution.weight'', 1 :: nat), (''edge_embedding.linear.bias'', 2)]"]
  unfolding old_module_names by simp

section \<open>Properties of the checkpoint model loader\<close>

lemma fill_defaults_lookup:
  "map_of (fst (fill_defaults items config evs)) k =
     (case map_of config k of Some v \<Rightarrow> Some v | None \<Rightarrow> map_of items k)"
proof (induction items arbitrary: config evs)
  case Nil
  then show ?case by (simp split: option.splits)
next
  case (Cons kv items)
  obtain k' v' where kv: "kv = (k', v')" by (cases kv)
  show ?case
  proof (cases "k' \<in> set (map fst config)")
    case True
    then have "map_of config k' \<noteq> None" by (simp add: map_of_eq_None_iff)
    with True kv Cons.IH [where config = config and evs = evs] show ?thesis
      by (auto split: option.splits)
  next
    case False
    then have none: "map_of config k' = None" by (simp add: map_of_eq_None_iff)
    from False kv have
      "fill_defaults (kv # items) config evs =
         fill_defaults items (AList.update k' v' config) (evs @ [Print_default k' v'])"
      by simp
    with Cons.IH [where config = "AList.update k' v' config" and evs = "evs @ [Print_default k' v']"] none kv
    show ?thesis
      by (auto simp: update_conv' split: option.splits)
  qed
qed

lemma fill_defaults_keeps_events:
  "set evs \<subseteq> set (snd (fill_defaults items config evs))"
proof (induction items arbitrary: config evs)
  case Nil
  then show ?case by simp
next
  case (Cons kv items)
  obtain k' v' where kv: "kv = (k', v')" by (cases kv)
  from Cons.IH [where config = config and evs = evs]
    Cons.IH [where config = "AList.update k' v' config" and evs = "evs @ [Print_default k' v']"] kv
  show ?case by auto
qed

lemma fill_defaults_prints:
  "map_of config k = None \<Longrightarrow> map_of items k = Some v \<Longrightarrow>
   Print_default k v \<in> set (snd (fill_defaults items config evs))"
proof (induction items arbitrary: config evs)
  case Nil
  then show ?case by simp
next
  case (Cons kv items)
  obtain k' v' where kv: "kv = (k', v')" by (cases kv)
  show ?case
  proof (cases "k' = k")
    case True
    with Cons.prems kv have "v' = v" and "k \<notin> set (map fst config)"
      by (simp_all add: map_of_eq_None_iff)
    with True kv
      fill_defaults_keeps_events [where evs = "evs @ [Print_default k v]" and items = items
        and config = "AList.update k v config"]
    show ?thesis by auto
  next
    case False
    with Cons.prems kv have items: "map_of items k = Some v" by simp
    show ?thesis
    proof (cases "k' \<in> set (map fst config)")
      case True
      with kv Cons.IH [OF Cons.prems(1) items, where evs = evs] show ?thesis by simp
    next
      case False
      have "map_of (AList.update k' v' config) k = None"
        using Cons.prems(1) \<open>k' \<noteq> k\<close> by (simp add: update_conv')
      from Cons.IH [OF this items, where evs = "evs @ [Print_default k' v']"] False kv
      show ?thesis by simp
    qed
  qed
qed

lemma tensors_to_cpu_lookup:
  "map_of (tensors_to_cpu config) k = map_option cpu (map_of config k)"
  by (induction config) (auto simp: tensors_to_cpu_def)

lemma fill_defaults_no_warning:
  "Warn_cutoff \<notin> set evs \<Longrightarrow> Warn_cutoff \<notin> set (snd (fill_defaults items config evs))"
proof (induction items arbitrary: config evs)
  case Nil
  then show ?case by simp
next
  case (Cons kv items)
  obtain k' v' where kv: "kv = (k', v')" by (cases kv)
  from Cons.IH [where config = config and evs = evs]
    Cons.IH [where config = "AList.update k' v' config" and evs = "evs @ [Print_default k' v']"]
    Cons.prems kv
  show ?case by auto
qed

lemma cpu_eq_VStr: "cpu v = VStr s \<longleftrightarrow> v = VStr s"
  by (cases v) (simp_all add: cpu_def)

lemma load_state_dict_keys: "map fst (fst (load_state_dict model sd)) = map fst model"
  by (induction model) (auto simp: load_state_dict_def)

lemma load_state_dict_missing:
  "fst (snd (load_state_dict model sd)) = [] \<longleftrightarrow> set (map fst model) \<subseteq> set (map fst sd)"
  by (auto simp: load_state_dict_def filter_empty_conv)

lemma load_parameters_events: "Warn_cutoff \<notin> set (fst (load_parameters model sd))"
  by (simp add: load_parameters_def load_state_dict_def Let_def)

lemma load_parameters_direct:
  "set (map fst model) \<subseteq> set (map fst sd) \<Longrightarrow>
   load_parameters model sd = ([], Inr (fst (load_state_dict model sd)))"
proof -
  assume sub: "set (map fst model) \<subseteq> set (map fst sd)"
  obtain m1 missing unused where l: "load_state_dict model sd = (m1, missing, unused)"
    by (cases "load_state_dict model sd") auto
  with sub load_state_dict_missing [of model sd] have "missing = []" by simp
  with l show ?thesis by (simp add: load_parameters_def)
qed

lemma resolve_config_flagged:
  assumes "map_of config OPTIMIZE_BY_REDUCE = Some flag" and "truthy flag = Inr True"
  shows "resolve_config env config =
           (case fix_cutoff (tensors_to_cpu (fst (fill_defaults (defaults env) config []))) of
              Inl e \<Rightarrow> (snd (fill_defaults (defaults env) config []), Inl e)
            | Inr (config2, evs') \<Rightarrow>
                (snd (fill_defaults (defaults env) config []) @ evs', Inr config2))"
proof -
  obtain config1 evs where f: "fill_defaults (defaults env) config [] = (config1, evs)"
    by (cases "fill_defaults (defaults env) config []") auto
  with assms show ?thesis by (simp add: resolve_config_def getitem_def split: sum.splits)
qed

lemma model_from_checkpoint_resolved:
  assumes "open_checkpoint env checkpoint = Inr c"
    and "ckpt_model_state_dict c = Some msd"
    and "ckpt_config c = Some config"
    and "resolve_config env config = (evs, Inr config')"
  shows "model_from_checkpoint env checkpoint =
           (case build_E3_equivariant_model env config' of
              Inl e \<Rightarrow> (evs, Inl e)
            | Inr model \<Rightarrow>
                (evs @ fst (load_parameters model msd),
                 case snd (load_parameters model msd) of
                   Inl e \<Rightarrow> Inl e
                 | Inr model' \<Rightarrow> Inr (model', config')))"
  using assms
  by (simp add: model_from_checkpoint_def split: sum.splits prod.splits)

lemma model_from_checkpoint_unresolved:
  assumes "open_checkpoint env checkpoint = Inr c"
    and "ckpt_model_state_dict c = Some msd"
    and "ckpt_config c = Some config"
    and "resolve_config env config = (evs, Inl e)"
  shows "model_from_checkpoint env checkpoint = (evs, Inl e)"
  using assms by (simp add: model_from_checkpoint_def)


lemma fix_cutoff_present:
  assumes "map_of config1 CUTOFF_FUNCTION = Some (VDict cf)"
    and "map_of cf CUTOFF_FUNCTION_NAME = Some name"
    and "map_of config1 SELF_CONNECTION_TYPE = Some sct"
  shows "fix_cutoff config1 =
           (if name = VStr ''XPLOR'' \<and> sct = VStr ''MACE''
            then Inr (AList.update SELF_CONNECTION_TYPE (VStr ''linear'') config1, [Warn_cutoff])
            else Inr (config1, []))"
  using assms by (simp add: fix_cutoff_def getitem_def subscript_def)

text \<open>
  Claim C5. For a checkpoint whose configuration has a truthy optimize-by-reduce flag, a
  cutoff function with a name and a self-connection type: when the name is \<^verbatim>\<open>XPLOR\<close> and
  the type is \<^verbatim>\<open>MACE\<close> the loader emits the warning, and the configuration it
  returns binds the self-connection type to \<^verbatim>\<open>linear\<close>; otherwise it emits no such
  warning and the configuration it returns binds the self-connection type to the value
  of the checkpoint (moved to the CPU when it is a tensor). The loader does return when
  the builder accepts every configuration with a model whose parameters the checkpoint has.
\<close>

theorem model_from_checkpoint_cutoff_correction:
  assumes "open_checkpoint env checkpoint = Inr c"
    and "ckpt_model_state_dict c = Some msd"
    and "ckpt_config c = Some config"
    and "map_of config OPTIMIZE_BY_REDUCE = Some flag"
    and "truthy flag = Inr True"
    and "map_of config CUTOFF_FUNCTION = Some (VDict cf)"
    and "map_of cf CUTOFF_FUNCTION_NAME = Some name"
    and "map_of config SELF_CONNECTION_TYPE = Some sct"
  shows "\<exists>evs r. model_from_checkpoint env checkpoint = (evs, r) \<and>
           (if name = VStr ''XPLOR'' \<and> sct = VStr ''MACE''
            then Warn_cutoff \<in> set evs \<and>
                 (\<forall>m cfg. r = Inr (m, cfg) \<longrightarrow>
                    map_of cfg SELF_CONNECTION_TYPE = Some (VStr ''linear''))
            else Warn_cutoff \<notin> set evs \<and>
                 (\<forall>m cfg. r = Inr (m, cfg) \<longrightarrow>
                    map_of cfg SELF_CONNECTION_TYPE = Some (cpu sct))) \<and>
           ((\<forall>cfg. \<exists>m. build_E3_equivariant_model env cfg = Inr m \<and>
                       set (map fst m) \<subseteq> set (map fst msd)) \<longrightarrow>
            (\<exists>m cfg. r = Inr (m, cfg)))"
proof -
  let ?filled = "fill_defaults (defaults env) config []"
  let ?config1 = "tensors_to_cpu (fst ?filled)"
  let ?match = "name = VStr ''XPLOR'' \<and> sct = VStr ''MACE''"
  let ?config2 = "if ?match then AList.update SELF_CONNECTION_TYPE (VStr ''linear'') ?config1
                  else ?config1"
  let ?evs = "snd ?filled @ (if ?match then [Warn_cutoff] else [])"
  have cf1: "map_of ?config1 CUTOFF_FUNCTION = Some (VDict cf)"
    using assms(6) by (simp add: tensors_to_cpu_lookup fill_defaults_lookup cpu_def)
  have sct1: "map_of ?config1 SELF_CONNECTION_TYPE = Some (cpu sct)"
    using assms(8) by (simp add: tensors_to_cpu_lookup fill_defaults_lookup)
  have "fix_cutoff ?config1 =
          (if name = VStr ''XPLOR'' \<and> cpu sct = VStr ''MACE''
           then Inr (AList.update SELF_CONNECTION_TYPE (VStr ''linear'') ?config1, [Warn_cutoff])
           else Inr (?config1, []))"
    by (rule fix_cutoff_present [OF cf1 assms(7) sct1])
  then have fixed: "fix_cutoff ?config1 = Inr (?config2, if ?match then [Warn_cutoff] else [])"
    by (simp add: cpu_eq_VStr)
  have res: "resolve_config env config = (?evs, Inr ?config2)"
    unfolding resolve_config_flagged [OF assms(4,5)] fixed by simp
  note mfc = model_from_checkpoint_resolved [OF assms(1-3) res]
  have sct2: "map_of ?config2 SELF_CONNECTION_TYPE =
                Some (if ?match then VStr ''linear'' else cpu sct)"
    using sct1 by (simp add: update_conv')
  have no_warn: "Warn_cutoff \<notin> set (snd ?filled)"
    by (rule fill_defaults_no_warning) simp
  show ?thesis
  proof (cases "build_E3_equivariant_model env ?config2")
    case (Inl e)
    with mfc have run: "model_from_checkpoint env checkpoint = (?evs, Inl e)" by simp
    have "\<not> (\<forall>cfg. \<exists>m. build_E3_equivariant_model env cfg = Inr m \<and>
                       set (map fst m) \<subseteq> set (map fst msd))"
      using Inl by (metis sum.distinct(1))
    with run no_warn show ?thesis by auto
  next
    case (Inr model)
    let ?lp = "load_parameters model msd"
    from mfc Inr have run: "model_from_checkpoint env checkpoint =
        (?evs @ fst ?lp, case snd ?lp of Inl e \<Rightarrow> Inl e | Inr model' \<Rightarrow> Inr (model', ?config2))"
      by simp
    have warn: "Warn_cutoff \<in> set (?evs @ fst ?lp) \<longleftrightarrow> ?match"
      using no_warn load_parameters_events [of model msd] by auto
    have cfg: "map_of cfg SELF_CONNECTION_TYPE = Some (if ?match then VStr ''linear'' else cpu sct)"
      if "(case snd ?lp of Inl e \<Rightarrow> Inl e | Inr model' \<Rightarrow> Inr (model', ?config2)) = Inr (m, cfg)"
      for m cfg
      using that sct2 by (auto split: sum.splits)
    have ret: "\<exists>m cfg. (case snd ?lp of Inl e \<Rightarrow> Inl e | Inr model' \<Rightarrow> Inr (model', ?config2))
                  = Inr (m, cfg)"
      if b: "\<forall>cfg. \<exists>m. build_E3_equivariant_model env cfg = Inr m \<and>
                       set (map fst m) \<subseteq> set (map fst msd)"
    proof -
      from b Inr have "set (map fst model) \<subseteq> set (map fst msd)" by (metis sum.inject(2))
      from load_parameters_direct [OF this] show ?thesis by simp
    qed
    let ?E = "?evs @ fst ?lp"
    let ?r = "case snd ?lp of Inl e \<Rightarrow> Inl e | Inr model' \<Rightarrow> Inr (model', ?config2)"
    have sel: "if ?match
          then Warn_cutoff \<in> set ?E \<and>
                 (\<forall>m cfg. ?r = Inr (m, cfg) \<longrightarrow>
                    map_of cfg SELF_CONNECTION_TYPE = Some (VStr ''linear''))
          else Warn_cutoff \<notin> set ?E \<and>
                 (\<forall>m cfg. ?r = Inr (m, cfg) \<longrightarrow>
                    map_of cfg SELF_CONNECTION_TYPE = Some (cpu sct))"
    proof (cases ?match)
      case True
      have "Warn_cutoff \<in> set ?E" using warn True by blast
      moreover have "\<forall>m cfg. ?r = Inr (m, cfg) \<longrightarrow>
                    map_of cfg SELF_CONNECTION_TYPE = Some (VStr ''linear'')"
        using cfg True by auto
      ultimately show ?thesis unfolding if_P [OF True] by (rule conjI)
    next
      case False
      have "Warn_cutoff \<notin> set ?E" using warn False by blast
      moreover have "\<forall>m cfg. ?r = Inr (m, cfg) \<longrightarrow>
                    map_of cfg SELF_CONNECTION_TYPE = Some (cpu sct)"
        using cfg False by auto
      ultimately show ?thesis unfolding if_not_P [OF False] by (rule conjI)
    qed
    have "model_from_checkpoint env checkpoint = (?E, ?r) \<and>
           (if ?match
            then Warn_cutoff \<in> set ?E \<and>
                 (\<forall>m cfg. ?r = Inr (m, cfg) \<longrightarrow>
                    map_of cfg SELF_CONNECTION_TYPE = Some (VStr ''linear''))
            else Warn_cutoff \<notin> set ?E \<and>
                 (\<forall>m cfg. ?r = Inr (m, cfg) \<longrightarrow>
                    map_of cfg SELF_CONNECTION_TYPE = Some (cpu sct))) \<and>
           ((\<forall>cfg. \<exists>m. build_E3_equivariant_model env cfg = Inr m \<and>
                       set (map fst m) \<subseteq> set (map fst msd)) \<longrightarrow>
            (\<exists>m cfg. ?r = Inr (m, cfg)))"
      using run sel ret by blast
    then show ?thesis by blast
  qed
qed

theorem model_from_checkpoint_cutoff_correction_witness:
  "\<exists>evs m cfg.
     model_from_checkpoint
       \<lparr>DEFAULT_E3_EQUIVARIANT_MODEL_CONFIG = [(''lmax'', VInt 1)], DEFAULT_DATA_CONFIG = [],
        DEFAULT_TRAINING_CONFIG = [],
        build_E3_equivariant_model = (\<lambda>cfg. Inr [(''0_convolution.weight'', 0 :: nat)]),
        torch_load = (\<lambda>p. Inl RuntimeError)\<rparr>
       (Mapping
          \<lparr>ckpt_model_state_dict = Some [(''0_convolution.weight'', 5)],
           ckpt_config = Some
             [(''optimize_by_reduce'', VBool True),
              (''cutoff_function'', VDict [(''cutoff_function_name'', VStr ''XPLOR'')]),
              (''self_connection_type'', VStr ''MACE'')]\<rparr>) = (evs, Inr (m, cfg)) \<and>
     Warn_cutoff \<in> set evs \<and>
     map_of cfg SELF_CONNECTION_TYPE = Some (VStr ''linear'')"
  (is "\<exists>evs m cfg. model_from_checkpoint ?env (Mapping ?c) = _ \<and> _")
proof -
  have "\<exists>evs r. model_from_checkpoint ?env (Mapping ?c) = (evs, r) \<and>
           (if VStr ''XPLOR'' = VStr ''XPLOR'' \<and> VStr ''MACE'' = VStr ''MACE''
            then Warn_cutoff \<in> set evs \<and>
                 (\<forall>m cfg. r = Inr (m, cfg) \<longrightarrow>
                    map_of cfg SELF_CONNECTION_TYPE = Some (VStr ''linear''))
            else Warn_cutoff \<notin> set evs \<and>
                 (\<forall>m cfg. r = Inr (m, cfg) \<longrightarrow>
                    map_of cfg SELF_CONNECTION_TYPE = Some (cpu (VStr ''MACE'')))) \<and>
           ((\<forall>cfg. \<exists>m. build_E3_equivariant_model ?env cfg = Inr m \<and>
                       set (map fst m) \<subseteq> set (map fst [(''0_convolution.weight'', 5 :: nat)])) \<longrightarrow>
            (\<exists>m cfg. r = Inr (m, cfg)))"
    by (rule model_from_checkpoint_cutoff_correction
          [where c = ?c and flag = "VBool True"
             and config = "[(''optimize_by_reduce'', VBool True),
              (''cutoff_function'', VDict [(''cutoff_function_name'', VStr ''XPLOR'')]),
              (''self_connection_type'', VStr ''MACE'')]"
             and cf = "[(''cutoff_function_name'', VStr ''XPLOR'')]"])
       (simp_all add: open_checkpoint_def OPTIMIZE_BY_REDUCE_def CUTOFF_FUNCTION_def
          CUTOFF_FUNCTION_NAME_def SELF_CONNECTION_TYPE_def truthy_def)
  then obtain evs r where
    run: "model_from_checkpoint ?env (Mapping ?c) = (evs, r)"
    and w: "Warn_cutoff \<in> set evs"
    and lin: "\<And>m cfg. r = Inr (m, cfg) \<Longrightarrow>
                map_of cfg SELF_CONNECTION_TYPE = Some (VStr ''linear'')"
    and ret: "\<exists>m cfg. r = Inr (m, cfg)"
    by auto
  from ret obtain m cfg where "r = Inr (m, cfg)" by blast
  with run w lin show ?thesis by blast
qed

lemma map_old_loop_keys:
  "set (map fst (map_old_loop items acc)) = set (map fst acc) \<union> new_key ` set (map fst items)"
proof (induction items arbitrary: acc)
  case Nil
  then show ?case by simp
next
  case (Cons kv items)
  obtain k v where kv: "kv = (k, v)" by (cases kv)
  from Cons.IH [of "AList.update (new_key k) v acc"] kv show ?case
    by (auto simp: dom_update)
qed

lemma map_old_model_keys:
  "set (map fst (map_old_model sd)) = new_key ` set (map fst sd)"
  using map_old_loop_keys [of sd "[]"] by (simp add: map_old_model_def)

lemma load_state_dict_lookup:
  "map_of (fst (load_state_dict model sd)) k =
     map_option (\<lambda>v. case map_of sd k of None \<Rightarrow> v | Some w \<Rightarrow> w) (map_of model k)"
  by (induction model) (auto simp: load_state_dict_def split: option.splits)

lemma load_parameters_retry:
  assumes "\<not> set (map fst model) \<subseteq> set (map fst msd)"
  shows "load_parameters model msd =
           ((if snd (snd (load_state_dict (fst (load_state_dict model msd)) (map_old_model msd))) \<noteq> []
             then [Warn_not_used
                     (snd (snd (load_state_dict (fst (load_state_dict model msd))
                                  (map_old_model msd))))]
             else []),
            (if set (map fst model) \<subseteq> new_key ` set (map fst msd)
             then Inr (fst (load_state_dict (fst (load_state_dict model msd)) (map_old_model msd)))
             else Inl (AssertionError ''Missing keys'')))"
proof -
  obtain m1 missing unused where l1: "load_state_dict model msd = (m1, missing, unused)"
    by (cases "load_state_dict model msd") auto
  obtain m2 missing' not_used where
    l2: "load_state_dict m1 (map_old_model msd) = (m2, missing', not_used)"
    by (cases "load_state_dict m1 (map_old_model msd)") auto
  from assms l1 load_state_dict_missing [of model msd] have miss: "missing \<noteq> []" by simp
  from l1 load_state_dict_keys [of model msd] have keys: "map fst m1 = map fst model" by simp
  from l2 load_state_dict_missing [of m1 "map_old_model msd"] keys map_old_model_keys [of msd]
  have "missing' = [] \<longleftrightarrow> set (map fst model) \<subseteq> new_key ` set (map fst msd)"
    by simp
  with l1 l2 miss show ?thesis by (simp add: load_parameters_def)
qed

lemma numbered_entries_in_table:
  "i < 10 \<Longrightarrow> set (numbered_entries i) \<subseteq> set old_module_name_mapping"
  by (auto simp: old_module_name_mapping_def)

text \<open>
  Claim C4. Take a checkpoint whose configuration resolves and whose resolved configuration
  the builder accepts. When the checkpoint lacks some parameter of the model under its
  own names, and holds for every parameter \<open>new.g\<close> of the model either a key \<open>old.f\<close>
  with \<open>(old, new)\<close> an entry of the table of legacy names and \<open>g\<close> equal to \<open>f\<close> with
  \<^verbatim>\<open>denumerator\<close> spelled \<^verbatim>\<open>denominator\<close>, or the parameter itself under a module name
  that is not legacy, then the first load misses keys, the load of the remapped mapping
  misses none, and the loader returns the model with the values of the remapped mapping.
  When both loads miss keys, the loader fails on its assertion. The remapping sends
  \<open>old.f\<close> to \<open>new.f\<close> with the corrected spelling for each entry of the table, and the
  table has the four numbered names of each block 0 to 9.
\<close>

theorem model_from_checkpoint_legacy_names:
  assumes "open_checkpoint env checkpoint = Inr c"
    and "ckpt_model_state_dict c = Some msd"
    and "ckpt_config c = Some config"
    and "resolve_config env config = (evs, Inr config')"
    and "build_E3_equivariant_model env config' = Inr model"
  shows "(\<not> set (map fst model) \<subseteq> set (map fst msd) \<and>
          (\<forall>k \<in> set (map fst model).
             (k \<in> set (map fst msd) \<and>
              hd (split k CHR ''.'') \<notin> set (map fst old_module_name_mapping)) \<or>
             (\<exists>old new f.
                (old, new) \<in> set old_module_name_mapping \<and>
                old @ ''.'' @ f \<in> set (map fst msd) \<and>
                k = new @ ''.'' @ (if contains f ''denumerator''
                                   then replace f ''denumerator'' ''denominator'' else f))) \<longrightarrow>
          fst (snd (load_state_dict model msd)) \<noteq> [] \<and>
          fst (snd (load_state_dict (fst (load_state_dict model msd)) (map_old_model msd))) = [] \<and>
          (\<exists>evs' model'.
             model_from_checkpoint env checkpoint = (evs @ evs', Inr (model', config')) \<and>
             map fst model' = map fst model \<and>
             (\<forall>k \<in> set (map fst model). map_of model' k = map_of (map_old_model msd) k)))
         \<and> (fst (snd (load_state_dict model msd)) \<noteq> [] \<and>
             fst (snd (load_state_dict (fst (load_state_dict model msd)) (map_old_model msd)))
               \<noteq> [] \<longrightarrow>
             (\<exists>evs'. model_from_checkpoint env checkpoint =
                       (evs @ evs', Inl (AssertionError ''Missing keys''))))
         \<and> (\<forall>(old, new) \<in> set old_module_name_mapping.
               new_key (old @ ''.'' @ f) =
                 new @ ''.'' @ (if contains f ''denumerator''
                                then replace f ''denumerator'' ''denominator'' else f))
         \<and> (\<forall>i < 10. set (numbered_entries i) \<subseteq> set old_module_name_mapping)"
proof (intro conjI impI)
  note mfc = model_from_checkpoint_resolved [OF assms(1-4)]
  let ?m1 = "fst (load_state_dict model msd)"
  let ?sd = "map_old_model msd"
  let ?m2 = "fst (load_state_dict ?m1 ?sd)"
  have keys1: "map fst ?m1 = map fst model" by (rule load_state_dict_keys)
  {
    assume a: "\<not> set (map fst model) \<subseteq> set (map fst msd) \<and>
          (\<forall>k \<in> set (map fst model).
             (k \<in> set (map fst msd) \<and>
              hd (split k CHR ''.'') \<notin> set (map fst old_module_name_mapping)) \<or>
             (\<exists>old new f.
                (old, new) \<in> set old_module_name_mapping \<and>
                old @ ''.'' @ f \<in> set (map fst msd) \<and>
                k = new @ ''.'' @ (if contains f ''denumerator''
                                   then replace f ''denumerator'' ''denominator'' else f)))"
    then have notsub: "\<not> set (map fst model) \<subseteq> set (map fst msd)" by blast
    have covered: "k \<in> new_key ` set (map fst msd)" if k: "k \<in> set (map fst model)" for k
    proof -
      from a k consider
        (same) "k \<in> set (map fst msd)"
          "hd (split k CHR ''.'') \<notin> set (map fst old_module_name_mapping)"
        | (renamed) old new f where "(old, new) \<in> set old_module_name_mapping"
          "old @ ''.'' @ f \<in> set (map fst msd)"
          "k = new @ ''.'' @ (if contains f ''denumerator''
                              then replace f ''denumerator'' ''denominator'' else f)"
        by blast
      then show ?thesis
      proof cases
        case same
        from new_key_not_legacy [OF same(2)] same(1) show ?thesis by force
      next
        case renamed
        from new_key_legacy [OF renamed(1), of f] renamed(3)
        have "new_key (old @ ''.'' @ f) = k" by simp
        with renamed(2) show ?thesis by blast
      qed
    qed
    then have sub: "set (map fst model) \<subseteq> new_key ` set (map fst msd)" by blast
    from notsub show "fst (snd (load_state_dict model msd)) \<noteq> []"
      by (simp add: load_state_dict_missing)
    from sub have "set (map fst ?m1) \<subseteq> set (map fst ?sd)"
      unfolding keys1 using map_old_model_keys [of msd] by simp
    then show "fst (snd (load_state_dict ?m1 ?sd)) = []"
      by (simp only: load_state_dict_missing)
    from sub load_parameters_retry [OF notsub]
    have lp: "load_parameters model msd =
        ((if snd (snd (load_state_dict ?m1 ?sd)) \<noteq> []
          then [Warn_not_used (snd (snd (load_state_dict ?m1 ?sd)))] else []), Inr ?m2)"
      by simp
    have run: "model_from_checkpoint env checkpoint =
        (evs @ (if snd (snd (load_state_dict ?m1 ?sd)) \<noteq> []
          then [Warn_not_used (snd (snd (load_state_dict ?m1 ?sd)))] else []), Inr (?m2, config'))"
      by (simp add: mfc assms(5) lp)
    have keys2: "map fst ?m2 = map fst model"
      using load_state_dict_keys [of ?m1 ?sd] keys1 by simp
    have vals: "map_of ?m2 k = map_of ?sd k" if k: "k \<in> set (map fst model)" for k
    proof -
      from k sub have "k \<in> set (map fst ?sd)" using map_old_model_keys [of msd] by auto
      then obtain w where w: "map_of ?sd k = Some w"
        by (cases "map_of ?sd k") (auto simp: map_of_eq_None_iff)
      from k keys1 have "k \<in> set (map fst ?m1)" by simp
      then obtain v where v: "map_of ?m1 k = Some v"
        by (cases "map_of ?m1 k") (auto simp: map_of_eq_None_iff)
      have "map_of ?m2 k =
              map_option (\<lambda>v. case map_of ?sd k of None \<Rightarrow> v | Some w \<Rightarrow> w) (map_of ?m1 k)"
        by (rule load_state_dict_lookup)
      with v w show ?thesis by simp
    qed
    from run keys2 vals
    show "\<exists>evs' model'.
             model_from_checkpoint env checkpoint = (evs @ evs', Inr (model', config')) \<and>
             map fst model' = map fst model \<and>
             (\<forall>k \<in> set (map fst model). map_of model' k = map_of (map_old_model msd) k)"
      by blast
  }
  {
    assume b: "fst (snd (load_state_dict model msd)) \<noteq> [] \<and>
             fst (snd (load_state_dict ?m1 ?sd)) \<noteq> []"
    then have notsub: "\<not> set (map fst model) \<subseteq> set (map fst msd)"
      by (simp add: load_state_dict_missing)
    from b have "\<not> set (map fst ?m1) \<subseteq> set (map fst ?sd)"
      by (simp only: load_state_dict_missing simp_thms)
    then have "\<not> set (map fst model) \<subseteq> new_key ` set (map fst msd)"
      unfolding keys1 using map_old_model_keys [of msd] by simp
    with load_parameters_retry [OF notsub]
    have "snd (load_parameters model msd) = Inl (AssertionError ''Missing keys'')"
      by simp
    then show "\<exists>evs'. model_from_checkpoint env checkpoint =
                       (evs @ evs', Inl (AssertionError ''Missing keys''))"
      by (simp add: mfc assms(5))
  }
  show "\<forall>(old, new) \<in> set old_module_name_mapping.
               new_key (old @ ''.'' @ f) =
                 new @ ''.'' @ (if contains f ''denumerator''
                                then replace f ''denumerator'' ''denominator'' else f)"
    using new_key_legacy by blast
  show "\<forall>i < 10. set (numbered_entries i) \<subseteq> set old_module_name_mapping"
    using numbered_entries_in_table by blast
qed

theorem model_from_checkpoint_legacy_names_witness:
  "\<exists>evs model' cfg.
     model_from_checkpoint
       \<lparr>DEFAULT_E3_EQUIVARIANT_MODEL_CONFIG = [], DEFAULT_DATA_CONFIG = [],
        DEFAULT_TRAINING_CONFIG = [],
        build_E3_equivariant_model =
          (\<lambda>cfg. Inr [(''0_convolution.weight'', 0 :: nat),
                       (''edge_embedding.basis.denominator'', 0),
                       (''onehot.weight'', 0)]),
        torch_load = (\<lambda>p. Inl RuntimeError)\<rparr>
       (Mapping
          \<lparr>ckpt_model_state_dict =
             Some [(''0 convolution.weight'', 5), (''EdgeEmbedding.basis.denumerator'', 7),
                   (''onehot.weight'', 9)],
           ckpt_config = Some
             [(''optimize_by_reduce'', VBool True),
              (''cutoff_function'', VDict [(''cutoff_function_name'', VStr ''poly_cut'')]),
              (''self_connection_type'', VStr ''nequip'')]\<rparr>) = (evs, Inr (model', cfg)) \<and>
     map_of model' ''0_convolution.weight'' = Some 5 \<and>
     map_of model' ''edge_embedding.basis.denominator'' = Some 7 \<and>
     map_of model' ''onehot.weight'' = Some 9"
  (is "\<exists>evs model' cfg. model_from_checkpoint ?env (Mapping ?c) = _ \<and> _")
proof -
  let ?msd = "[(''0 convolution.weight'', 5 :: nat), (''EdgeEmbedding.basis.denumerator'', 7),
               (''onehot.weight'', 9)]"
  let ?model = "[(''0_convolution.weight'', 0 :: nat), (''edge_embedding.basis.denominator'', 0),
                 (''onehot.weight'', 0)]"
  let ?config = "[(''optimize_by_reduce'', VBool True),
              (''cutoff_function'', VDict [(''cutoff_function_name'', VStr ''poly_cut'')]),
              (''self_connection_type'', VStr ''nequip'')]"
  have nk1: "new_key ''0 convolution.weight'' = ''0_convolution.weight''"
    by code_simp
  have nk2: "new_key ''EdgeEmbedding.basis.denumerator'' = ''edge_embedding.basis.denominator''"
    by code_simp
  have nk3: "new_key ''onehot.weight'' = ''onehot.weight''"
    by code_simp
  have remapped: "map_old_model ?msd =
      [(''0_convolution.weight'', 5), (''edge_embedding.basis.denominator'', 7),
       (''onehot.weight'', 9)]"
    by (simp add: map_old_model_def nk1 nk2 nk3)
  have res: "resolve_config ?env ?config = ([], Inr ?config)"
    by (simp add: resolve_config_def getitem_def truthy_def defaults_def tensors_to_cpu_def
        cpu_def fix_cutoff_def subscript_def OPTIMIZE_BY_REDUCE_def CUTOFF_FUNCTION_def
        CUTOFF_FUNCTION_NAME_def SELF_CONNECTION_TYPE_def)
  have in1: "(''0 convolution'', ''0_convolution'') \<in> set old_module_name_mapping"
    by (simp add: old_module_name_mapping_def range_10 numbered_entries_def str.simps digit_def)
  have in2: "(''EdgeEmbedding'', ''edge_embedding'') \<in> set old_module_name_mapping"
    by (simp add: old_module_name_mapping_def)
  have f1: "\<not> contains ''weight'' ''denumerator''"
    by simp
  have f2: "contains ''basis.denumerator'' ''denumerator''"
    by simp
  have f3: "replace ''basis.denumerator'' ''denumerator'' ''denominator'' = ''basis.denominator''"
    by code_simp
  have k1: "\<exists>old new f.
                (old, new) \<in> set old_module_name_mapping \<and>
                old @ ''.'' @ f \<in> set (map fst ?msd) \<and>
                ''0_convolution.weight'' = new @ ''.'' @ (if contains f ''denumerator''
                                   then replace f ''denumerator'' ''denominator'' else f)"
    using in1 f1
    by (intro exI [of _ "''0 convolution''"] exI [of _ "''0_convolution''"]
        exI [of _ "''weight''"]) simp
  have k2: "\<exists>old new f.
                (old, new) \<in> set old_module_name_mapping \<and>
                old @ ''.'' @ f \<in> set (map fst ?msd) \<and>
                ''edge_embedding.basis.denominator'' = new @ ''.'' @ (if contains f ''denumerator''
                                   then replace f ''denumerator'' ''denominator'' else f)"
    using in2 f2 f3
    by (intro exI [of _ "''EdgeEmbedding''"] exI [of _ "''edge_embedding''"]
        exI [of _ "''basis.denumerator''"]) simp
  have k3: "''onehot.weight'' \<in> set (map fst ?msd) \<and>
              hd (split ''onehot.weight'' CHR ''.'') \<notin> set (map fst old_module_name_mapping)"
    unfolding old_module_names by simp
  have hyp: "\<not> set (map fst ?model) \<subseteq> set (map fst ?msd) \<and>
          (\<forall>k \<in> set (map fst ?model).
             (k \<in> set (map fst ?msd) \<and>
              hd (split k CHR ''.'') \<notin> set (map fst old_module_name_mapping)) \<or>
             (\<exists>old new f.
                (old, new) \<in> set old_module_name_mapping \<and>
                old @ ''.'' @ f \<in> set (map fst ?msd) \<and>
                k = new @ ''.'' @ (if contains f ''denumerator''
                                   then replace f ''denumerator'' ''denominator'' else f)))"
  proof (intro conjI ballI)
    show "\<not> set (map fst ?model) \<subseteq> set (map fst ?msd)" by simp
  next
    fix k assume "k \<in> set (map fst ?model)"
    then consider "k = ''0_convolution.weight''" | "k = ''edge_embedding.basis.denominator''"
      | "k = ''onehot.weight''"
      by auto
    then show "(k \<in> set (map fst ?msd) \<and>
              hd (split k CHR ''.'') \<notin> set (map fst old_module_name_mapping)) \<or>
             (\<exists>old new f.
                (old, new) \<in> set old_module_name_mapping \<and>
                old @ ''.'' @ f \<in> set (map fst ?msd) \<and>
                k = new @ ''.'' @ (if contains f ''denumerator''
                                   then replace f ''denumerator'' ''denominator'' else f))"
    proof cases
      case 1
      with k1 show ?thesis by blast
    next
      case 2
      with k2 show ?thesis by blast
    next
      case 3
      with k3 show ?thesis by blast
    qed
  qed
  have "\<not> set (map fst ?model) \<subseteq> set (map fst ?msd) \<and>
          (\<forall>k \<in> set (map fst ?model).
             (k \<in> set (map fst ?msd) \<and>
              hd (split k CHR ''.'') \<notin> set (map fst old_module_name_mapping)) \<or>
             (\<exists>old new f.
                (old, new) \<in> set old_module_name_mapping \<and>
                old @ ''.'' @ f \<in> set (map fst ?msd) \<and>
                k = new @ ''.'' @ (if contains f ''denumerator''
                                   then replace f ''denumerator'' ''denominator'' else f))) \<longrightarrow>
          fst (snd (load_state_dict ?model ?msd)) \<noteq> [] \<and>
          fst (snd (load_state_dict (fst (load_state_dict ?model ?msd)) (map_old_model ?msd))) = [] \<and>
          (\<exists>evs' model'.
             model_from_checkpoint ?env (Mapping ?c) = ([] @ evs', Inr (model', ?config)) \<and>
             map fst model' = map fst ?model \<and>
             (\<forall>k \<in> set (map fst ?model). map_of model' k = map_of (map_old_model ?msd) k))"
    by (rule conjunct1,
        rule model_from_checkpoint_legacy_names [where c = ?c and config = ?config and f = "[]"])
       (simp_all add: open_checkpoint_def res)
  with hyp obtain evs' model' where
    run: "model_from_checkpoint ?env (Mapping ?c) = ([] @ evs', Inr (model', ?config))"
    and vals: "\<forall>k \<in> set (map fst ?model). map_of model' k = map_of (map_old_model ?msd) k"
    by blast
  from vals have "map_of model' ''0_convolution.weight'' = Some 5
    \<and> map_of model' ''edge_embedding.basis.denominator'' = Some 7
    \<and> map_of model' ''onehot.weight'' = Some 9"
    unfolding remapped by simp
  with run show ?thesis by blast
qed

lemma resolve_config_missing_flag:
  "map_of config OPTIMIZE_BY_REDUCE = None \<Longrightarrow> resolve_config env config = ([], Inl KeyError)"
  by (simp add: resolve_config_def getitem_def)

lemma fix_cutoff_result:
  "fix_cutoff config1 = Inr (config2, evs') \<Longrightarrow>
   config2 = config1 \<or> config2 = AList.update SELF_CONNECTION_TYPE (VStr ''linear'') config1"
  by (auto simp: fix_cutoff_def split: sum.splits if_splits)

lemma model_from_checkpoint_fills_defaults:
  assumes "open_checkpoint env checkpoint = Inr c"
    and "ckpt_model_state_dict c = Some msd"
    and "ckpt_config c = Some config"
    and "map_of config OPTIMIZE_BY_REDUCE = Some flag"
    and "truthy flag = Inr True"
    and "map_of config K = None"
    and "map_of (defaults env) K = Some v"
  shows "\<exists>evs r. model_from_checkpoint env checkpoint = (evs, r) \<and>
           Print_default K v \<in> set evs \<and>
           (\<forall>m cfg. r = Inr (m, cfg) \<longrightarrow>
              map_of cfg K = Some (cpu v) \<or>
              K = SELF_CONNECTION_TYPE \<and> map_of cfg K = Some (VStr ''linear''))"
proof -
  let ?filled = "fill_defaults (defaults env) config []"
  let ?config1 = "tensors_to_cpu (fst ?filled)"
  have printed: "Print_default K v \<in> set (snd ?filled)"
    by (rule fill_defaults_prints [OF assms(6,7)])
  have bound: "map_of ?config1 K = Some (cpu v)"
    using assms(6,7) by (simp add: tensors_to_cpu_lookup fill_defaults_lookup)
  note rc = resolve_config_flagged [OF assms(4,5), of env]
  show ?thesis
  proof (cases "fix_cutoff ?config1")
    case (Inl e)
    with rc have "resolve_config env config = (snd ?filled, Inl e)" by simp
    from model_from_checkpoint_unresolved [OF assms(1-3) this] printed
    show ?thesis by simp
  next
    case (Inr p)
    obtain config2 evs' where p: "p = (config2, evs')" by (cases p)
    with Inr rc have res: "resolve_config env config = (snd ?filled @ evs', Inr config2)"
      by simp
    from fix_cutoff_result Inr p have
      "config2 = ?config1 \<or>
       config2 = AList.update SELF_CONNECTION_TYPE (VStr ''linear'') ?config1"
      by blast
    with bound have c2: "map_of config2 K = Some (cpu v) \<or>
        K = SELF_CONNECTION_TYPE \<and> map_of config2 K = Some (VStr ''linear'')"
      by (cases "K = SELF_CONNECTION_TYPE") (auto simp: update_conv')
    note mfc = model_from_checkpoint_resolved [OF assms(1-3) res]
    show ?thesis
    proof (cases "build_E3_equivariant_model env config2")
      case (Inl e)
      with mfc printed show ?thesis by simp
    next
      case (Inr model)
      with mfc printed c2 show ?thesis by (auto split: sum.splits)
    qed
  qed
qed

text \<open>
  Claim C2. The loader reads the optimize-by-reduce flag from the checkpoint's
  configuration before it merges the defaults. With tables of defaults that give the flag
  the default \<open>True\<close>, a checkpoint whose configuration lacks the flag raises
  \<^verbatim>\<open>KeyError\<close> and prints nothing, while a checkpoint that has the flag and lacks another
  default key is loaded, with the key filled and the warning printed.
\<close>

theorem model_from_checkpoint_missing_flag:
  "model_from_checkpoint
     \<lparr>DEFAULT_E3_EQUIVARIANT_MODEL_CONFIG =
        [(''lmax'', VInt 1), (''optimize_by_reduce'', VBool True)],
      DEFAULT_DATA_CONFIG = [], DEFAULT_TRAINING_CONFIG = [],
      build_E3_equivariant_model = (\<lambda>cfg. Inr [(''0_convolution.weight'', 0 :: nat)]),
      torch_load = (\<lambda>p. Inl RuntimeError)\<rparr>
     (Mapping
        \<lparr>ckpt_model_state_dict = Some [(''0_convolution.weight'', 5)],
         ckpt_config = Some
           [(''lmax'', VInt 2),
            (''cutoff_function'', VDict [(''cutoff_function_name'', VStr ''poly_cut'')]),
            (''self_connection_type'', VStr ''nequip'')]\<rparr>) = ([], Inl KeyError)
   \<and> model_from_checkpoint
     \<lparr>DEFAULT_E3_EQUIVARIANT_MODEL_CONFIG =
        [(''lmax'', VInt 1), (''optimize_by_reduce'', VBool True)],
      DEFAULT_DATA_CONFIG = [], DEFAULT_TRAINING_CONFIG = [],
      build_E3_equivariant_model = (\<lambda>cfg. Inr [(''0_convolution.weight'', 0 :: nat)]),
      torch_load = (\<lambda>p. Inl RuntimeError)\<rparr>
     (Mapping
        \<lparr>ckpt_model_state_dict = Some [(''0_convolution.weight'', 5)],
         ckpt_config = Some
           [(''optimize_by_reduce'', VBool True),
            (''cutoff_function'', VDict [(''cutoff_function_name'', VStr ''poly_cut'')]),
            (''self_connection_type'', VStr ''nequip'')]\<rparr>) =
     ([Print_default ''lmax'' (VInt 1)],
      Inr ([(''0_convolution.weight'', 5)],
           [(''optimize_by_reduce'', VBool True),
            (''cutoff_function'', VDict [(''cutoff_function_name'', VStr ''poly_cut'')]),
            (''self_connection_type'', VStr ''nequip''),
            (''lmax'', VInt 1)]))"
  by (simp add: model_from_checkpoint_def open_checkpoint_def resolve_config_def getitem_def
      truthy_def defaults_def tensors_to_cpu_def cpu_def fix_cutoff_def subscript_def
      load_parameters_def load_state_dict_def
      OPTIMIZE_BY_REDUCE_def CUTOFF_FUNCTION_def CUTOFF_FUNCTION_NAME_def
      SELF_CONNECTION_TYPE_def)

section \<open>Properties of the irreps-output inference\<close>

lemma select_blocks_filters:
  "(mul, l, p) \<in> set (select_blocks drop_l parity_mode fix_multiplicity irreps_out) \<Longrightarrow>
   (drop_l \<noteq> PyBool False \<longrightarrow> int l \<le> int_of drop_l) \<and>
   (parity_mode = Interned ''even'' \<longrightarrow> p \<noteq> - 1) \<and>
   (parity_mode = Interned ''sph'' \<longrightarrow> p = (- 1) ^ l)"
proof (induction irreps_out)
  case Nil
  then show ?case by simp
next
  case (Cons b bs)
  obtain mul' l' p' where b: "b = (mul', l', p')" by (cases b)
  let ?rest = "select_blocks drop_l parity_mode fix_multiplicity bs"
  show ?case
  proof (cases "drop_l \<noteq> PyBool False \<and> int l' > int_of drop_l")
    case True
    then have "select_blocks drop_l parity_mode fix_multiplicity (b # bs) = ?rest"
      unfolding b by simp
    with Cons show ?thesis by simp
  next
    case dropped: False
    show ?thesis
    proof (cases "py_is parity_mode (Interned ''even'') \<and> p' = - 1")
      case True
      with dropped have "select_blocks drop_l parity_mode fix_multiplicity (b # bs) = ?rest"
        unfolding b by simp
      with Cons show ?thesis by simp
    next
      case even: False
      show ?thesis
      proof (cases "py_is parity_mode (Interned ''sph'') \<and> p' \<noteq> (- 1) ^ l'")
        case True
        with dropped even
        have "select_blocks drop_l parity_mode fix_multiplicity (b # bs) = ?rest"
          unfolding b by simp
        with Cons show ?thesis by simp
      next
        case sph: False
        from dropped even sph
        have kept: "select_blocks drop_l parity_mode fix_multiplicity (b # bs) =
            (if int_of fix_multiplicity \<noteq> 0 then (int_of fix_multiplicity, (l', p'))
             else (mul', (l', p'))) # ?rest"
          unfolding b by simp
        show ?thesis
        proof (cases "(mul, l, p) \<in> set ?rest")
          case True
          then show ?thesis by (rule Cons.IH)
        next
          case False
          with Cons.prems kept have "l = l' \<and> p = p'"
            by (simp split: if_splits)
          with dropped even sph show ?thesis
            by (auto simp: py_is_def)
        qed
      qed
    qed
  qed
qed

lemma infer_irreps_out_filters:
  assumes "infer_irreps_out full_tensor_product irreps_x irreps_operand drop_l parity_mode
             fix_multiplicity = Inr irreps"
    and "(mul, l, p) \<in> set irreps"
  shows "(drop_l \<noteq> PyBool False \<longrightarrow> int l \<le> int_of drop_l) \<and>
         (parity_mode = Interned ''even'' \<longrightarrow> p \<noteq> - 1) \<and>
         (parity_mode = Interned ''sph'' \<longrightarrow> p = (- 1) ^ l)"
proof -
  from assms(1) have "irreps = select_blocks drop_l parity_mode fix_multiplicity
                                 (full_tensor_product irreps_x irreps_operand)"
    by (auto simp: infer_irreps_out_def Irreps_def split: if_splits)
  with assms(2) select_blocks_filters show ?thesis by blast
qed

text \<open>
  Claim C6. The parity filters compare the mode with \<^verbatim>\<open>is\<close>, the identity of objects,
  while the assertion before them compares with \<^verbatim>\<open>in\<close>, the equality of characters. A
  mode string \<^verbatim>\<open>even\<close> or \<^verbatim>\<open>sph\<close> that is not the object of the literal passes the
  assertion and is filtered like \<^verbatim>\<open>full\<close>: a block of parity -1 is returned under
  \<^verbatim>\<open>even\<close>, and a block of degree 1 and parity 1 under \<^verbatim>\<open>sph\<close>. With the object of
  the literal the same calls drop these blocks.
\<close>

theorem infer_irreps_out_parity_by_identity:
  "infer_irreps_out (\<lambda>x y. [(1, 1, - 1)]) [(1, 1, - 1)] [(1, 0, 1)]
     (PyBool False) (Fresh 0 ''even'') (PyBool False) = Inr [(1, 1, - 1)]
   \<and> infer_irreps_out (\<lambda>x y. [(1, 1, - 1)]) [(1, 1, - 1)] [(1, 0, 1)]
     (PyBool False) (Interned ''even'') (PyBool False) = Inr []
   \<and> infer_irreps_out (\<lambda>x y. [(1, 0, 1), (1, 1, 1), (1, 2, 1)]) [(1, 1, - 1)] [(1, 1, - 1)]
     (PyBool False) (Fresh 0 ''sph'') (PyBool False) = Inr [(1, 0, 1), (1, 1, 1), (1, 2, 1)]
   \<and> infer_irreps_out (\<lambda>x y. [(1, 0, 1), (1, 1, 1), (1, 2, 1)]) [(1, 1, - 1)] [(1, 1, - 1)]
     (PyBool False) (Interned ''sph'') (PyBool False) = Inr [(1, 0, 1), (1, 2, 1)]"
  by (simp add: infer_irreps_out_def py_eq_def py_is_def Irreps_def)

section \<open>Invalid arguments\<close>

lemma postprocess_loop_append:
  "postprocess_loop output (xs @ ys) acc =
     (case postprocess_loop output xs acc of
        Inl e \<Rightarrow> Inl e
      | Inr r \<Rightarrow> postprocess_loop output ys r)"
  by (induction xs arbitrary: acc) (auto split: sum.splits)

lemma postprocess_type_unknown:
  "postprocess_type output (Str s) = Inl (ValueError ''Unknown loss type'')"
  by (simp add: postprocess_type_def)

lemma postprocess_loop_unknown:
  "Str s \<in> set loss_types \<Longrightarrow> \<exists>e. postprocess_loop output loss_types acc = Inl e"
  by (induction loss_types arbitrary: acc)
     (auto simp: postprocess_type_unknown split: sum.splits)

text \<open>
  Claim C3. The three checks of arguments raise at once. \<^verbatim>\<open>postprocess_output\<close> raises
  \<^verbatim>\<open>ValueError\<close> at a loss type that is no member of \<^verbatim>\<open>LossType\<close>, when it comes
  first and when the loss types before it were processed, and returns no result for a list
  that holds one. \<^verbatim>\<open>infer_irreps_out\<close> fails its assertion, before anything else, for a
  parity mode other than \<^verbatim>\<open>full\<close>, \<^verbatim>\<open>even\<close> and \<^verbatim>\<open>sph\<close>. \<^verbatim>\<open>model_from_checkpoint\<close>
  raises \<^verbatim>\<open>ValueError\<close> for an argument that is neither a string nor a dictionary,
  having printed and warned nothing.
\<close>

theorem invalid_arguments_raise:
  "postprocess_output batch (Str s # loss_types) = Inl (ValueError ''Unknown loss type'')
   \<and> (postprocess_output batch before = Inr results \<longrightarrow>
        postprocess_output batch (before @ Str s # loss_types) =
          Inl (ValueError ''Unknown loss type''))
   \<and> (Str s \<in> set loss_types \<longrightarrow> (\<exists>e. postprocess_output batch loss_types = Inl e))
   \<and> (chars parity_mode \<notin> {''full'', ''even'', ''sph''} \<longrightarrow>
        infer_irreps_out full_tensor_product irreps_x irreps_operand drop_l parity_mode
          fix_multiplicity = Inl (AssertionError ''''))
   \<and> model_from_checkpoint env Neither =
        ([], Inl (ValueError ''checkpoint must be either str or dict''))"
proof (intro conjI impI)
  show "postprocess_output batch (Str s # loss_types) = Inl (ValueError ''Unknown loss type'')"
    by (simp add: postprocess_output_def postprocess_type_unknown)
  show "postprocess_output batch (before @ Str s # loss_types) =
          Inl (ValueError ''Unknown loss type'')"
    if "postprocess_output batch before = Inr results"
    using that
    by (simp add: postprocess_output_def postprocess_loop_append postprocess_type_unknown)
  show "\<exists>e. postprocess_output batch loss_types = Inl e" if "Str s \<in> set loss_types"
    using that postprocess_loop_unknown by (simp add: postprocess_output_def)
  show "infer_irreps_out full_tensor_product irreps_x irreps_operand drop_l parity_mode
          fix_multiplicity = Inl (AssertionError '''')"
    if "chars parity_mode \<notin> {''full'', ''even'', ''sph''}"
    using that by (simp add: infer_irreps_out_def py_eq_def)
  show "model_from_checkpoint env Neither =
        ([], Inl (ValueError ''checkpoint must be either str or dict''))"
    by (simp add: model_from_checkpoint_def open_checkpoint_def)
qed

theorem invalid_arguments_raise_witness:
  "postprocess_output
     \<lparr>KEY_NUM_ATOMS = Some [3, 5], KEY_PRED_TOTAL_ENERGY = Some [6, 20],
      KEY_ENERGY = Some [9, 10], KEY_PRED_FORCE = None, KEY_FORCE = None,
      KEY_PRED_STRESS = None, KEY_STRESS = None, KEY_USER_LABEL = (None :: unit list option)\<rparr>
     [Loss ENERGY, Str ''energy'', Loss FORCE] = Inl (ValueError ''Unknown loss type'')
   \<and> infer_irreps_out (\<lambda>x y. [(1, 1, - 1)]) [(1, 1, - 1)] [(1, 0, 1)]
     (PyBool False) (Interned ''odd'') (PyBool False) = Inl (AssertionError '''')
   \<and> model_from_checkpoint
     \<lparr>DEFAULT_E3_EQUIVARIANT_MODEL_CONFIG = [], DEFAULT_DATA_CONFIG = [],
      DEFAULT_TRAINING_CONFIG = [],
      build_E3_equivariant_model = (\<lambda>cfg. Inr [(''0_convolution.weight'', 0 :: nat)]),
      torch_load = (\<lambda>p. Inl RuntimeError)\<rparr> Neither =
     ([], Inl (ValueError ''checkpoint must be either str or dict''))"
proof -
  let ?out = "\<lparr>KEY_NUM_ATOMS = Some [3, 5], KEY_PRED_TOTAL_ENERGY = Some [6, 20],
      KEY_ENERGY = Some [9, 10], KEY_PRED_FORCE = None, KEY_FORCE = None,
      KEY_PRED_STRESS = None, KEY_STRESS = None, KEY_USER_LABEL = (None :: unit list option)\<rparr>"
  note t = invalid_arguments_raise [where batch = ?out and before = "[Loss ENERGY]"
      and s = "''energy''" and loss_types = "[Loss FORCE]"
      and results = "[(Loss ENERGY, [2, 4], [3, 2], 1)]"
      and parity_mode = "Interned ''odd''" and full_tensor_product = "\<lambda>x y. [(1, 1, - 1)]"
      and irreps_x = "[(1, 1, - 1)]" and irreps_operand = "[(1, 0, 1)]"
      and drop_l = "PyBool False" and fix_multiplicity = "PyBool False"
      and env = "\<lparr>DEFAULT_E3_EQUIVARIANT_MODEL_CONFIG = [], DEFAULT_DATA_CONFIG = [],
        DEFAULT_TRAINING_CONFIG = [],
        build_E3_equivariant_model = (\<lambda>cfg. Inr [(''0_convolution.weight'', 0 :: nat)]),
        torch_load = (\<lambda>p. Inl RuntimeError)\<rparr>"]
  have pre: "postprocess_output ?out [Loss ENERGY] = Inr [(Loss ENERGY, [2, 4], [3, 2], 1)]"
    by (simp add: postprocess_output_def postprocess_type_def tensor_div_def)
  have mode: "chars (Interned ''odd'') \<notin> {''full'', ''even'', ''sph''}"
    by simp
  from t have "postprocess_output ?out [Loss ENERGY] = Inr [(Loss ENERGY, [2, 4], [3, 2], 1)] \<longrightarrow>
        postprocess_output ?out ([Loss ENERGY] @ Str ''energy'' # [Loss FORCE]) =
          Inl (ValueError ''Unknown loss type'')"
    by (rule conjunct1 [OF conjunct2])
  with pre have "postprocess_output ?out ([Loss ENERGY] @ Str ''energy'' # [Loss FORCE]) =
          Inl (ValueError ''Unknown loss type'')"
    by (rule rev_mp)
  then have g1: "postprocess_output ?out [Loss ENERGY, Str ''energy'', Loss FORCE] =
          Inl (ValueError ''Unknown loss type'')"
    by (simp only: append.simps)
  from t have "chars (Interned ''odd'') \<notin> {''full'', ''even'', ''sph''} \<longrightarrow>
        infer_irreps_out (\<lambda>x y. [(1, 1, - 1)]) [(1, 1, - 1)] [(1, 0, 1)]
          (PyBool False) (Interned ''odd'') (PyBool False) = Inl (AssertionError '''')"
    by (rule conjunct1 [OF conjunct2 [OF conjunct2 [OF conjunct2]]])
  with mode have g2: "infer_irreps_out (\<lambda>x y. [(1, 1, - 1)]) [(1, 1, - 1)] [(1, 0, 1)]
          (PyBool False) (Interned ''odd'') (PyBool False) = Inl (AssertionError '''')"
    by (rule rev_mp)
  note g3 = conjunct2 [OF conjunct2 [OF conjunct2 [OF conjunct2 [OF t]]]]
  from g1 g2 g3 show ?thesis by (intro conjI)
qed

end
